theory Spec2Isabelle
  imports Complex_Main
begin

section \<open>The video text extractor: data, collaborators and world\<close>

text \<open>
  The program (\<^verbatim>\<open>app.py\<close>) downloads or receives a video, uploads it to a remote
  service, polls the service until the uploaded asset has left the state
  \<^verbatim>\<open>PROCESSING\<close>, asks the service for a transcript and a summary, offers three
  downloads and removes the transient file.

  The embedding passes a \<open>world\<close> explicitly (the files on disk, a clock advanced by
  \<^verbatim>\<open>time.sleep\<close>, and the list of everything the run emitted or called, oldest first).
  All that the program does not control (the network, the remote service, the names the
  temporary-file library draws, whether a file can be removed) is a field of the record
  \<open>env\<close>. Every call of a collaborator that can raise returns a sum, \<open>Inl\<close> carrying the
  message of the exception.

  The libraries the program calls are not part of it; where their behaviour matters it
  is written down next to the definition that models it (the temporary-file library
  under \<open>NamedTemporaryFile\<close>, the uploader widget under \<open>file_uploader\<close>). The events
  \<open>Enter\<close> and \<open>Call\<close> of the log are bookkeeping: they record that a method of the
  program was entered or a collaborator was called, so that statements such as "the
  extraction is never attempted" can be made about a run.

  Modelling decisions about presentation:
  \<^item> a fraction passed to a progress bar is a Python float; it is a \<open>rat\<close> here, the
    exact quotient. The floats concerned (\<open>k/300\<close> and \<open>0.9\<close>) are the correctly
    rounded images of these rationals, and rounding is monotone, so order and equality
    with the cap are the same on both sides;
  \<^item> the messages shown to the user contain pictographs; each message is a constructor
    of \<open>notice\<close>, carrying the interpolated text where the source interpolates one;
  \<^item> calls into the user-interface toolkit only record an event and do not raise;
    pure layout calls (headers, columns, tabs, the sidebar text) are not recorded.
\<close>

type_synonym bytes = "nat list"

text \<open>The object returned by \<^verbatim>\<open>genai.upload_file\<close> and \<^verbatim>\<open>genai.get_file\<close>:
  \<^verbatim>\<open>video_file.name\<close> and \<^verbatim>\<open>video_file.state.name\<close>.\<close>

record remote_file =
  name :: string
  state_name :: string

text \<open>The arguments of \<^verbatim>\<open>model.generate_content\<close>: a list of parts or one prompt.\<close>

datatype part = FilePart remote_file | TextPart string

text \<open>The accessor \<^verbatim>\<open>response.text\<close> of a generation response either yields a
  string or raises (a response without a usable part).\<close>

datatype response_text = Text string | TextRaises string

text \<open>The \<^verbatim>\<open>content-length\<close> header as \<^verbatim>\<open>int(response.headers.get('content-length', 0))\<close>
  sees it: missing (the default 0), not a number (\<^verbatim>\<open>int\<close> raises), or a number.\<close>

datatype header_value = Absent | Malformed string | Length int

text \<open>One step of \<^verbatim>\<open>response.iter_content\<close>: a chunk, or a fault of the connection.\<close>

datatype chunk = Chunk bytes | Broken string

record http_response =
  status_error :: "string option"
  content_length :: header_value
  body :: "chunk list"

record env =
  http_get :: "string \<Rightarrow> string + http_response"
  temp_names :: "string list"
  upload_file :: "string \<Rightarrow> string + remote_file"
  get_file :: "nat \<Rightarrow> string \<Rightarrow> string + remote_file"
  generate_content :: "part list \<Rightarrow> string + response_text"
  unlink_error :: "string \<Rightarrow> string option"

text \<open>
  \<^item> \<open>http_get env url\<close>: \<^verbatim>\<open>requests.get(url, stream=True)\<close>;
  \<^item> \<open>temp_names env\<close>: the candidate names (directory, prefix and random part) that
    \<^verbatim>\<open>tempfile\<close> draws, in order;
  \<^item> \<open>get_file env t n\<close>: the answer of \<^verbatim>\<open>genai.get_file(n)\<close> at time \<open>t\<close>;
  \<^item> \<open>unlink_error env p\<close>: the exception of \<^verbatim>\<open>os.unlink(p)\<close>, if it raises.
\<close>

datatype notice =
    Downloading | VideoDownloaded | DownloadFailed string
  | Uploading | VideoUploaded | WaitingForProcessing
  | ProcessingTimeout | ProcessingFailed | VideoReady
  | UnexpectedState string | UploadFailed string
  | Extracting | ExtractionCompleted | ExtractionFailed string
  | Summarizing | SummaryCreated | SummaryFailed string
  | EnterApiKey | ApiKeyHint | EnterVideoUrl | FileUploaded | UploadAVideoFile

datatype level = StSpinner | StSuccess | StError | StInfo | StWarning

datatype method_call =
    DownloadVideo string
  | UploadVideoToGemini string
  | ExtractTextFromVideo remote_file
  | SummarizeText string

datatype extern_call =
    HttpGet string
  | UploadFile string
  | Sleep nat
  | GetFile string
  | GenerateContent "part list"
  | Unlink string

datatype box = ResultBox | SummaryBox

datatype event =
    Say level notice
  | Progress rat
  | StatusText nat string
  | StatusEmpty
  | Enter method_call
  | Call extern_call
  | Markdown box string
  | DownloadButton string string string

text \<open>
  \<^item> \<open>Say l n\<close>: \<^verbatim>\<open>st.spinner\<close>, \<^verbatim>\<open>st.success\<close>, \<^verbatim>\<open>st.error\<close>, \<^verbatim>\<open>st.info\<close>,
    \<^verbatim>\<open>st.warning\<close>;
  \<^item> \<open>Progress p\<close>: \<^verbatim>\<open>st.progress(p)\<close> and \<^verbatim>\<open>progress_bar.progress(p)\<close>;
  \<^item> \<open>StatusText t s\<close>: \<^verbatim>\<open>status_text.text(f"Processing... ({t}s) - Status: {s}")\<close>;
  \<^item> \<open>Enter m\<close>: the method \<open>m\<close> of the extractor was entered with these arguments;
  \<^item> \<open>Call c\<close>: the collaborator \<open>c\<close> was called;
  \<^item> \<open>DownloadButton data file_name mime\<close>: \<^verbatim>\<open>st.download_button\<close>.
\<close>

record world =
  files :: "string \<rightharpoonup> bytes"
  clock :: nat
  events :: "event list"

definition emit :: "event \<Rightarrow> world \<Rightarrow> world" where
  "emit e w = w\<lparr>events := events w @ [e]\<rparr>"

definition sleep :: "nat \<Rightarrow> world \<Rightarrow> world" where
  "sleep n w = emit (Call (Sleep n)) (w\<lparr>clock := clock w + n\<rparr>)"

section \<open>The resolver: temporary files and the download\<close>

text \<open>\<^verbatim>\<open>tempfile.NamedTemporaryFile(delete=False, suffix=...)\<close>: the library draws
  candidate names and creates, exclusively, the first one that does not exist yet; it
  raises when it finds none. The new file is empty.\<close>

definition NamedTemporaryFile :: "env \<Rightarrow> string \<Rightarrow> world \<Rightarrow> (string + string) \<times> world" where
  "NamedTemporaryFile env suffix w =
     (case find (\<lambda>p. files w p = None) (map (\<lambda>stem. stem @ suffix) (temp_names env)) of
        None \<Rightarrow> (Inl ''FileExistsError'', w)
      | Some p \<Rightarrow> (Inr p, w\<lparr>files := (files w)(p \<mapsto> [])\<rparr>))"

definition write_file :: "string \<Rightarrow> bytes \<Rightarrow> world \<Rightarrow> world" where
  "write_file p b w =
     w\<lparr>files := (files w)(p \<mapsto> (case files w p of None \<Rightarrow> b | Some old \<Rightarrow> old @ b))\<rparr>"

text \<open>The loop over \<^verbatim>\<open>response.iter_content\<close> (lines 76 to 80). The result is the
  exception that ended the loop, if one did.\<close>

fun write_chunks :: "string \<Rightarrow> int \<Rightarrow> int \<Rightarrow> chunk list \<Rightarrow> world \<Rightarrow> string option \<times> world" where
  "write_chunks p total_size downloaded [] w = (None, w)"
| "write_chunks p total_size downloaded (Broken e # rest) w = (Some e, w)"
| "write_chunks p total_size downloaded (Chunk b # rest) w =
     (if total_size > 0
      then write_chunks p total_size (downloaded + int (length b)) rest
             (emit (Progress (of_int (downloaded + int (length b)) / of_int total_size))
                (write_file p b w))
      else write_chunks p total_size downloaded rest (write_file p b w))"

definition download_failed :: "string \<Rightarrow> world \<Rightarrow> string option \<times> world" where
  "download_failed e w = (None, emit (Say StError (DownloadFailed e)) w)"

definition download_video :: "env \<Rightarrow> string \<Rightarrow> world \<Rightarrow> string option \<times> world" where
  "download_video env video_url w =
     (let w0 = emit (Call (HttpGet video_url))
                 (emit (Say StSpinner Downloading) (emit (Enter (DownloadVideo video_url)) w))
      in case http_get env video_url of
           Inl e \<Rightarrow> download_failed e w0
         | Inr response \<Rightarrow>
             (case status_error response of
                Some e \<Rightarrow> download_failed e w0
              | None \<Rightarrow>
                  (case NamedTemporaryFile env ''.mp4'' w0 of
                     (Inl e, w1) \<Rightarrow> download_failed e w1
                   | (Inr temp_file, w1) \<Rightarrow>
                       (case content_length response of
                          Malformed e \<Rightarrow> download_failed e w1
                        | Absent \<Rightarrow>
                            (case write_chunks temp_file 0 0 (body response) w1 of
                               (Some e, w2) \<Rightarrow> download_failed e w2
                             | (None, w2) \<Rightarrow>
                                 (Some temp_file, emit (Say StSuccess VideoDownloaded) w2))
                        | Length total_size \<Rightarrow>
                            (case write_chunks temp_file total_size 0 (body response)
                                    (if total_size > 0 then emit (Progress 0) w1 else w1) of
                               (Some e, w2) \<Rightarrow> download_failed e w2
                             | (None, w2) \<Rightarrow>
                                 (Some temp_file, emit (Say StSuccess VideoDownloaded) w2))))))"

section \<open>The uploader and the readiness poller\<close>

definition max_wait_time :: nat where
  "max_wait_time = 300"

text \<open>Line 108: \<^verbatim>\<open>progress = min(wait_time / max_wait_time, 0.9)\<close>.\<close>

definition progress :: "nat \<Rightarrow> rat" where
  "progress wait_time = min (of_nat wait_time / of_nat max_wait_time) (9 / 10)"

text \<open>Lines 109 and 111: what one pass through the loop shows.\<close>

definition report :: "nat \<Rightarrow> remote_file \<Rightarrow> world \<Rightarrow> world" where
  "report wait_time video_file w =
     emit (StatusText wait_time (state_name video_file)) (emit (Progress (progress wait_time)) w)"

text \<open>Lines 117 and 118, up to the answer of the service: the sleep, then the call.\<close>

definition requery :: "remote_file \<Rightarrow> world \<Rightarrow> world" where
  "requery video_file w = emit (Call (GetFile (name video_file))) (sleep 2 w)"

text \<open>How the \<^verbatim>\<open>while\<close> loop of lines 106 to 118 ends: the condition became false
  (with the file last seen), the function returned from inside the loop on the timeout,
  or \<^verbatim>\<open>genai.get_file\<close> raised.\<close>

datatype poll_exit = Left remote_file | TimedOut | Raised string

function poll_loop :: "env \<Rightarrow> remote_file \<Rightarrow> nat \<Rightarrow> world \<Rightarrow> poll_exit \<times> world" where
  "poll_loop env video_file wait_time w =
     (if state_name video_file \<noteq> ''PROCESSING'' then (Left video_file, w)
      else if wait_time + 2 > max_wait_time
      then (TimedOut, emit (Say StError ProcessingTimeout) (report (wait_time + 2) video_file w))
      else
        (case get_file env (clock w + 2) (name video_file) of
           Inl e \<Rightarrow> (Raised e, requery video_file (report (wait_time + 2) video_file w))
         | Inr video_file' \<Rightarrow>
             poll_loop env video_file' (wait_time + 2)
               (requery video_file (report (wait_time + 2) video_file w))))"
  by pat_completeness auto
termination
  by (relation "measure (\<lambda>(env, video_file, wait_time, w). 301 - wait_time)")
     (auto simp: max_wait_time_def)

declare poll_loop.simps [simp del]

text \<open>Lines 93 to 101: the upload succeeded; the bar is created at 0.\<close>

definition start_wait :: "world \<Rightarrow> world" where
  "start_wait w =
     emit (Progress 0) (emit (Say StInfo WaitingForProcessing) (emit (Say StSuccess VideoUploaded) w))"

text \<open>Lines 120 to 131: the loop was left; the bar goes to 1.0, then the state is
  classified.\<close>

definition classify :: "remote_file \<Rightarrow> world \<Rightarrow> remote_file option \<times> world" where
  "classify video_file w =
     (let w1 = emit StatusEmpty (emit (Progress 1) w)
      in if state_name video_file = ''FAILED''
         then (None, emit (Say StError ProcessingFailed) w1)
         else if state_name video_file = ''ACTIVE''
         then (Some video_file, emit (Say StSuccess VideoReady) w1)
         else (None, emit (Say StWarning (UnexpectedState (state_name video_file))) w1))"

text \<open>Lines 92 to 94: the method is entered and \<^verbatim>\<open>genai.upload_file\<close> is called.\<close>

definition start_upload :: "string \<Rightarrow> world \<Rightarrow> world" where
  "start_upload video_path w =
     emit (Call (UploadFile video_path))
       (emit (Say StSpinner Uploading) (emit (Enter (UploadVideoToGemini video_path)) w))"

definition upload_video_to_gemini :: "env \<Rightarrow> string \<Rightarrow> world \<Rightarrow> remote_file option \<times> world" where
  "upload_video_to_gemini env video_path w =
     (case upload_file env video_path of
        Inl e \<Rightarrow> (None, emit (Say StError (UploadFailed e)) (start_upload video_path w))
      | Inr video_file \<Rightarrow>
          (case poll_loop env video_file 0 (start_wait (start_upload video_path w)) of
             (Left video_file', w1) \<Rightarrow> classify video_file' w1
           | (TimedOut, w1) \<Rightarrow> (None, w1)
           | (Raised e, w1) \<Rightarrow> (None, emit (Say StError (UploadFailed e)) w1)))"

section \<open>The inference invoker\<close>

definition nl :: string where
  "nl = [CHR 0x0A]"

definition indent :: string where
  "indent = replicate 16 (CHR '' '')"

text \<open>The prompt of lines 141 to 149.\<close>

definition extraction_prompt :: string where
  "extraction_prompt =
     nl @ indent @ ''Please extract ALL text content from this video including:''
     @ nl @ indent @ ''1. All spoken dialogue and narration (transcribe speech to text)''
     @ nl @ indent @ ''2. Any text that appears on screen (titles, captions, signs, etc.)''
     @ nl @ indent @ ''3. Any other textual information visible in the video''
     @ nl @ indent
     @ nl @ indent @ ''Provide the complete transcript in chronological order.''
     @ nl @ indent @ ''If there are multiple speakers, indicate speaker changes.''
     @ nl @ indent"

definition extract_text_from_video :: "env \<Rightarrow> remote_file \<Rightarrow> world \<Rightarrow> string option \<times> world" where
  "extract_text_from_video env video_file w =
     (let w0 = emit (Call (GenerateContent [FilePart video_file, TextPart extraction_prompt]))
                 (emit (Say StSpinner Extracting) (emit (Enter (ExtractTextFromVideo video_file)) w))
      in case generate_content env [FilePart video_file, TextPart extraction_prompt] of
           Inl e \<Rightarrow> (None, emit (Say StError (ExtractionFailed e)) w0)
         | Inr response \<Rightarrow>
             (case response of
                TextRaises e \<Rightarrow>
                  (None, emit (Say StError (ExtractionFailed e)) (emit (Say StSuccess ExtractionCompleted) w0))
              | Text t \<Rightarrow> (Some t, emit (Say StSuccess ExtractionCompleted) w0)))"

text \<open>The prompt of lines 163 to 175, with the extracted text interpolated.\<close>

definition summary_prompt :: "string \<Rightarrow> string" where
  "summary_prompt extracted_text =
     nl @ indent @ ''Please create a comprehensive summary of the following text extracted from a video:''
     @ nl
     @ nl @ indent @ extracted_text
     @ nl
     @ nl @ indent @ ''Provide:''
     @ nl @ indent @ ''1. A brief overview (2-3 sentences)''
     @ nl @ indent @ ''2. Key points and main topics discussed''
     @ nl @ indent @ ''3. Important details or conclusions''
     @ nl @ indent @ ''4. Any notable quotes or statements''
     @ nl
     @ nl @ indent @ ''Make the summary clear, concise, and well-organized.''
     @ nl @ indent"

definition summarize_text :: "env \<Rightarrow> string \<Rightarrow> world \<Rightarrow> string option \<times> world" where
  "summarize_text env extracted_text w =
     (let w0 = emit (Call (GenerateContent [TextPart (summary_prompt extracted_text)]))
                 (emit (Say StSpinner Summarizing) (emit (Enter (SummarizeText extracted_text)) w))
      in case generate_content env [TextPart (summary_prompt extracted_text)] of
           Inl e \<Rightarrow> (None, emit (Say StError (SummaryFailed e)) w0)
         | Inr response \<Rightarrow>
             (case response of
                TextRaises e \<Rightarrow>
                  (None, emit (Say StError (SummaryFailed e)) (emit (Say StSuccess SummaryCreated) w0))
              | Text t \<Rightarrow> (Some t, emit (Say StSuccess SummaryCreated) w0)))"

section \<open>The page: \<^verbatim>\<open>main\<close>\<close>

text \<open>What the widgets hand to one run of the script: the key typed in the sidebar,
  the URL field and its button, the file picked in the uploader and its button.\<close>

record ui_input =
  api_key :: string
  video_url :: string
  url_button :: bool
  picked_file :: "(string \<times> bytes) option"
  upload_button :: bool

text \<open>Line 230, the \<^verbatim>\<open>type\<close> argument of \<^verbatim>\<open>st.file_uploader\<close>.\<close>

definition allowed_types :: "string list" where
  "allowed_types = [''mp4'', ''mov'', ''avi'', ''webm'', ''mpg'', ''mpeg'', ''wmv'', ''flv'']"

definition extension :: "string \<Rightarrow> string" where
  "extension file_name = rev (takeWhile (\<lambda>c. c \<noteq> CHR ''.'') (rev file_name))"

text \<open>The uploader widget hands over a picked file only when its name has one of the
  extensions it was given.\<close>

definition file_uploader :: "string list \<Rightarrow> (string \<times> bytes) option \<Rightarrow> (string \<times> bytes) option" where
  "file_uploader types picked =
     (case picked of
        None \<Rightarrow> None
      | Some (file_name, b) \<Rightarrow>
          if CHR ''.'' \<in> set file_name \<and> extension file_name \<in> set types
          then Some (file_name, b) else None)"

text \<open>Lines 212 to 224, the first tab.\<close>

definition url_tab :: "env \<Rightarrow> ui_input \<Rightarrow> world \<Rightarrow> string option \<times> world" where
  "url_tab env inp w =
     (if url_button inp
      then (if video_url inp \<noteq> [] then download_video env (video_url inp) w
            else (None, emit (Say StError EnterVideoUrl) w))
      else (None, w))"

text \<open>Lines 226 to 242, the second tab. It starts with the \<open>video_path\<close> the first tab
  left. The temporary file is created outside any \<^verbatim>\<open>try\<close>: an exception of the
  library leaves \<^verbatim>\<open>main\<close> (the \<open>Inl\<close> result).\<close>

definition upload_tab :: "env \<Rightarrow> ui_input \<Rightarrow> string option \<Rightarrow> world \<Rightarrow> (string + string option) \<times> world" where
  "upload_tab env inp video_path w =
     (if upload_button inp
      then (case file_uploader allowed_types (picked_file inp) of
              Some (file_name, b) \<Rightarrow>
                (case NamedTemporaryFile env ''.mp4'' w of
                   (Inl e, w1) \<Rightarrow> (Inl e, w1)
                 | (Inr tmp_file, w1) \<Rightarrow>
                     (Inr (Some tmp_file), emit (Say StSuccess FileUploaded) (write_file tmp_file b w1)))
            | None \<Rightarrow> (Inr video_path, emit (Say StError UploadAVideoFile) w))
      else (Inr video_path, w))"

definition replace_newlines :: "string \<Rightarrow> string" where
  "replace_newlines s = concat (map (\<lambda>c. if c = CHR 0x0A then ''<br>'' else [c]) s)"

text \<open>Line 303.\<close>

definition combined_text :: "string \<Rightarrow> string \<Rightarrow> string" where
  "combined_text extracted_text summary =
     ''EXTRACTED TEXT:'' @ nl @ replicate 50 (CHR ''-'') @ nl @ extracted_text @ nl @ nl @ nl
     @ ''SUMMARY:'' @ nl @ replicate 50 (CHR ''-'') @ nl @ summary"

text \<open>Lines 264 to 309: the two boxes and the three download buttons.\<close>

definition show_results :: "string \<Rightarrow> string \<Rightarrow> world \<Rightarrow> world" where
  "show_results extracted_text summary w =
     emit (DownloadButton (combined_text extracted_text summary) ''video_analysis_report.txt'' ''text/plain'')
       (emit (DownloadButton summary ''video_summary.txt'' ''text/plain'')
          (emit (Markdown SummaryBox (replace_newlines summary))
             (emit (DownloadButton extracted_text ''extracted_text.txt'' ''text/plain'')
                (emit (Markdown ResultBox (replace_newlines extracted_text)) w))))"

text \<open>Lines 252 to 309: the body of \<^verbatim>\<open>with progress_container\<close>. A Python string is
  true when it is not empty; the object of the remote file is always true.\<close>

definition run_pipeline :: "env \<Rightarrow> string \<Rightarrow> world \<Rightarrow> world" where
  "run_pipeline env video_path w =
     (case upload_video_to_gemini env video_path w of
        (None, w1) \<Rightarrow> w1
      | (Some video_file, w1) \<Rightarrow>
          (case extract_text_from_video env video_file w1 of
             (None, w2) \<Rightarrow> w2
           | (Some extracted_text, w2) \<Rightarrow>
               if extracted_text \<noteq> []
               then (case summarize_text env extracted_text w2 of
                       (None, w3) \<Rightarrow> w3
                     | (Some summary, w3) \<Rightarrow>
                         if summary \<noteq> [] then show_results extracted_text summary w3 else w3)
               else w2))"

text \<open>Lines 311 to 316: the cleanup; the bare \<^verbatim>\<open>except\<close> swallows what
  \<^verbatim>\<open>os.unlink\<close> raises.\<close>

definition cleanup :: "env \<Rightarrow> string \<Rightarrow> world \<Rightarrow> world" where
  "cleanup env video_path w =
     (if files w video_path \<noteq> None
      then (case unlink_error env video_path of
              None \<Rightarrow> (emit (Call (Unlink video_path)) w)\<lparr>files := (files w)(video_path := None)\<rparr>
            | Some e \<Rightarrow> emit (Call (Unlink video_path)) w)
      else w)"

text \<open>The whole run. The result is the exception that left \<^verbatim>\<open>main\<close>, if one did.\<close>

definition main :: "env \<Rightarrow> ui_input \<Rightarrow> world \<Rightarrow> string option \<times> world" where
  "main env inp w =
     (if api_key inp = []
      then (None, emit (Say StInfo ApiKeyHint) (emit (Say StWarning EnterApiKey) w))
      else
        (case url_tab env inp w of
           (video_path1, w1) \<Rightarrow>
             (case upload_tab env inp video_path1 w1 of
                (Inl e, w2) \<Rightarrow> (Some e, w2)
              | (Inr None, w2) \<Rightarrow> (None, w2)
              | (Inr (Some video_path), w2) \<Rightarrow>
                  if video_path \<noteq> []
                  then (None, cleanup env video_path (run_pipeline env video_path w2))
                  else (None, w2))))"

section \<open>Reading the log\<close>

text \<open>The fractions shown on a progress bar, the waits shown in the status line, the
  collaborators called, the methods entered, the downloads offered (file name and data),
  the prompts handed to \<^verbatim>\<open>generate_content\<close> and the paths handed to \<^verbatim>\<open>os.unlink\<close>,
  each in the order of the log.\<close>

fun progress_values :: "event list \<Rightarrow> rat list" where
  "progress_values [] = []"
| "progress_values (Progress p # es) = p # progress_values es"
| "progress_values (e # es) = progress_values es"

fun status_waits :: "event list \<Rightarrow> nat list" where
  "status_waits [] = []"
| "status_waits (StatusText t s # es) = t # status_waits es"
| "status_waits (e # es) = status_waits es"

fun calls :: "event list \<Rightarrow> extern_call list" where
  "calls [] = []"
| "calls (Call c # es) = c # calls es"
| "calls (e # es) = calls es"

fun entered :: "event list \<Rightarrow> method_call list" where
  "entered [] = []"
| "entered (Enter m # es) = m # entered es"
| "entered (e # es) = entered es"

fun downloads :: "event list \<Rightarrow> (string \<times> string) list" where
  "downloads [] = []"
| "downloads (DownloadButton d f m # es) = (f, d) # downloads es"
| "downloads (e # es) = downloads es"

fun generated :: "event list \<Rightarrow> part list list" where
  "generated [] = []"
| "generated (Call (GenerateContent ps) # es) = ps # generated es"
| "generated (e # es) = generated es"

fun unlinks :: "event list \<Rightarrow> string list" where
  "unlinks [] = []"
| "unlinks (Call (Unlink p) # es) = p # unlinks es"
| "unlinks (e # es) = unlinks es"

text \<open>What a step from world \<open>w\<close> to world \<open>w'\<close> added to the log.\<close>

definition emitted :: "world \<Rightarrow> world \<Rightarrow> event list" where
  "emitted w w' = drop (length (events w)) (events w')"

text \<open>The log of \<open>w'\<close> continues the log of \<open>w\<close>.\<close>

definition extends :: "world \<Rightarrow> world \<Rightarrow> bool" where
  "extends w w' = (\<exists>es. events w' = events w @ es)"


text \<open>A body that arrives whole: no step of the iteration raises.\<close>

fun complete :: "chunk list \<Rightarrow> bool" where
  "complete [] = True"
| "complete (Chunk b # rest) = complete rest"
| "complete (Broken e # rest) = False"


section \<open>The observations of the poller\<close>

text \<open>
  The files the loop sees while it keeps running, the loop being entered at time \<open>t\<close>
  with \<open>video_file\<close>: observation 0 is the file \<^verbatim>\<open>genai.upload_file\<close> returned,
  observation \<open>k + 1\<close> is the answer to \<^verbatim>\<open>genai.get_file\<close>, asked two time units after
  observation \<open>k\<close> under the name observation \<open>k\<close> carries.
\<close>

fun observe :: "env \<Rightarrow> remote_file \<Rightarrow> nat \<Rightarrow> nat \<Rightarrow> string + remote_file" where
  "observe env video_file t 0 = Inr video_file"
| "observe env video_file t (Suc k) =
     (case observe env video_file t k of
        Inl e \<Rightarrow> Inl e
      | Inr f \<Rightarrow> get_file env (t + 2 * Suc k) (name f))"

definition still_processing :: "string + remote_file \<Rightarrow> bool" where
  "still_processing r = (case r of Inl e \<Rightarrow> False | Inr f \<Rightarrow> state_name f = ''PROCESSING'')"

section \<open>The specification's wording about the suffix\<close>


section \<open>Concrete runs\<close>

text \<open>An empty disk at time 0 with an empty log, and a service that is down for
  everything but the upload and whose uploaded file stays \<^verbatim>\<open>PROCESSING\<close> for ever; the
  other environments differ from it in one or two answers.\<close>

definition world0 :: world where
  "world0 = \<lparr>files = Map.empty, clock = 0, events = []\<rparr>"

definition stuck_file :: remote_file where
  "stuck_file = \<lparr>name = ''files/abc'', state_name = ''PROCESSING''\<rparr>"

definition stuck_env :: env where
  "stuck_env =
     \<lparr>http_get = (\<lambda>url. Inl ''ConnectionError''),
      temp_names = [''/tmp/tmpa1b2c3''],
      upload_file = (\<lambda>p. Inr stuck_file),
      get_file = (\<lambda>t n. Inr \<lparr>name = n, state_name = ''PROCESSING''\<rparr>),
      generate_content = (\<lambda>ps. Inl ''ServiceUnavailable''),
      unlink_error = (\<lambda>p. None)\<rparr>"

text \<open>The upload returns a file that is already \<^verbatim>\<open>ACTIVE\<close>, or already \<^verbatim>\<open>FAILED\<close>.\<close>

definition active_env :: env where
  "active_env = stuck_env\<lparr>upload_file := (\<lambda>p. Inr \<lparr>name = ''files/abc'', state_name = ''ACTIVE''\<rparr>)\<rparr>"

definition failed_env :: env where
  "failed_env = stuck_env\<lparr>upload_file := (\<lambda>p. Inr \<lparr>name = ''files/abc'', state_name = ''FAILED''\<rparr>)\<rparr>"

text \<open>The file is \<^verbatim>\<open>PROCESSING\<close> when uploaded and at time 2, and \<^verbatim>\<open>ACTIVE\<close> from time 4.\<close>

definition slow_env :: env where
  "slow_env = stuck_env\<lparr>get_file :=
     (\<lambda>t n. Inr \<lparr>name = n, state_name = (if t < 4 then ''PROCESSING'' else ''ACTIVE'')\<rparr>)\<rparr>"

text \<open>The service transcribes and summarises; or it answers with an empty text.\<close>

definition happy_env :: env where
  "happy_env = active_env\<lparr>generate_content :=
     (\<lambda>ps. case ps of
        FilePart f # rest \<Rightarrow> Inr (Text ''Speaker 1: Hello.'')
      | _ \<Rightarrow> Inr (Text ''A greeting.''))\<rparr>"

definition empty_env :: env where
  "empty_env = active_env\<lparr>generate_content := (\<lambda>ps. Inr (Text []))\<rparr>"


text \<open>The download delivers one chunk and then the connection breaks.\<close>

definition broken_env :: env where
  "broken_env = stuck_env\<lparr>http_get := (\<lambda>url. Inr
     \<lparr>status_error = None, content_length = Absent,
      body = [Chunk [7, 8], Broken ''ConnectionResetError'']\<rparr>)\<rparr>"



definition url_input :: ui_input where
  "url_input =
     \<lparr>api_key = ''key'', video_url = ''https://example.com/video.mp4'', url_button = True,
      picked_file = None, upload_button = False\<rparr>"

section \<open>Basic facts about the log\<close>

lemma progress_le: "progress t \<le> 9 / 10"
  unfolding progress_def by (rule min.cobounded2)

lemma events_emit [simp]: "events (emit e w) = events w @ [e]"
  by (simp add: emit_def)

lemma clock_emit [simp]: "clock (emit e w) = clock w"
  by (simp add: emit_def)

lemma files_emit [simp]: "files (emit e w) = files w"
  by (simp add: emit_def)

lemma events_sleep [simp]: "events (sleep n w) = events w @ [Call (Sleep n)]"
  by (simp add: sleep_def)

lemma clock_sleep [simp]: "clock (sleep n w) = clock w + n"
  by (simp add: sleep_def)

lemma files_sleep [simp]: "files (sleep n w) = files w"
  by (simp add: sleep_def)

lemma progress_values_append [simp]:
  "progress_values (xs @ ys) = progress_values xs @ progress_values ys"
  by (induction xs rule: progress_values.induct) simp_all

lemma status_waits_append [simp]:
  "status_waits (xs @ ys) = status_waits xs @ status_waits ys"
  by (induction xs rule: status_waits.induct) simp_all

lemma calls_append [simp]: "calls (xs @ ys) = calls xs @ calls ys"
  by (induction xs rule: calls.induct) simp_all

lemma entered_append [simp]: "entered (xs @ ys) = entered xs @ entered ys"
  by (induction xs rule: entered.induct) simp_all

lemma downloads_append [simp]: "downloads (xs @ ys) = downloads xs @ downloads ys"
  by (induction xs rule: downloads.induct) simp_all

lemma extends_refl [simp]: "extends w w"
  by (simp add: extends_def)

lemma extends_trans: "extends a b \<Longrightarrow> extends b c \<Longrightarrow> extends a c"
  by (auto simp: extends_def)

lemma extends_emit [simp]: "extends w w' \<Longrightarrow> extends w (emit e w')"
  by (auto simp: extends_def)

lemma extends_sleep [simp]: "extends w w' \<Longrightarrow> extends w (sleep n w')"
  by (auto simp: extends_def)

lemma emitted_refl [simp]: "emitted w w = []"
  by (simp add: emitted_def)

lemma emitted_trans: "extends a b \<Longrightarrow> extends b c \<Longrightarrow> emitted a c = emitted a b @ emitted b c"
  by (auto simp: extends_def emitted_def)

lemma emitted_emit [simp]: "extends w w' \<Longrightarrow> emitted w (emit e w') = emitted w w' @ [e]"
  by (auto simp: extends_def emitted_def)

lemma emitted_sleep [simp]: "extends w w' \<Longrightarrow> emitted w (sleep n w') = emitted w w' @ [Call (Sleep n)]"
  by (auto simp: extends_def emitted_def)

lemma extends_report [simp]: "extends w w' \<Longrightarrow> extends w (report t f w')"
  by (simp add: report_def)

lemma extends_requery [simp]: "extends w w' \<Longrightarrow> extends w (requery f w')"
  by (simp add: requery_def)

lemma clock_report [simp]: "clock (report t f w) = clock w"
  by (simp add: report_def)

lemma clock_requery [simp]: "clock (requery f w) = clock w + 2"
  by (simp add: requery_def)

lemma files_report [simp]: "files (report t f w) = files w"
  by (simp add: report_def)

lemma files_requery [simp]: "files (requery f w) = files w"
  by (simp add: requery_def)

lemma emitted_report [simp]:
  "extends w w' \<Longrightarrow>
   emitted w (report t f w') = emitted w w' @ [Progress (progress t), StatusText t (state_name f)]"
  by (simp add: report_def)

lemma emitted_requery [simp]:
  "extends w w' \<Longrightarrow>
   emitted w (requery f w') = emitted w w' @ [Call (Sleep 2), Call (GetFile (name f))]"
  by (simp add: requery_def)

section \<open>Facts about the polling loop\<close>

lemma poll_loop_extends: "extends w (snd (poll_loop env video_file wait_time w))"
proof (induction env video_file wait_time w rule: poll_loop.induct)
  case (1 env video_file wait_time w)
  show ?case
  proof (cases "get_file env (clock w + 2) (name video_file)")
    case (Inl e)
    then show ?thesis by (simp add: poll_loop.simps)
  next
    case (Inr f)
    have "extends (requery video_file (report (wait_time + 2) video_file w))
            (snd (poll_loop env f (wait_time + 2) (requery video_file (report (wait_time + 2) video_file w))))"
      if "state_name video_file = ''PROCESSING''" "\<not> wait_time + 2 > max_wait_time"
      using "1.IH" that Inr by simp
    then show ?thesis
      using Inr by (subst poll_loop.simps) (auto intro: extends_trans [where b = "requery video_file (report (wait_time + 2) video_file w)"])
  qed
qed

lemma poll_loop_exit_state: "fst (poll_loop env video_file wait_time w) = Left f \<Longrightarrow> state_name f \<noteq> ''PROCESSING''"
proof (induction env video_file wait_time w rule: poll_loop.induct)
  case (1 env video_file wait_time w)
  then show ?case
    by (subst (asm) (2) poll_loop.simps) (auto split: if_splits sum.splits)
qed

lemma poll_loop_left:
  "state_name video_file \<noteq> ''PROCESSING'' \<Longrightarrow> poll_loop env video_file wait_time w = (Left video_file, w)"
  by (simp add: poll_loop.simps)

lemma poll_loop_timeout:
  "state_name video_file = ''PROCESSING'' \<Longrightarrow> wait_time + 2 > max_wait_time \<Longrightarrow>
   poll_loop env video_file wait_time w =
     (TimedOut, emit (Say StError ProcessingTimeout) (report (wait_time + 2) video_file w))"
  by (simp add: poll_loop.simps)

lemma poll_loop_raised:
  "state_name video_file = ''PROCESSING'' \<Longrightarrow> wait_time + 2 \<le> max_wait_time \<Longrightarrow>
   get_file env (clock w + 2) (name video_file) = Inl e \<Longrightarrow>
   poll_loop env video_file wait_time w =
     (Raised e, requery video_file (report (wait_time + 2) video_file w))"
  by (subst poll_loop.simps) simp

lemma poll_loop_next:
  "state_name video_file = ''PROCESSING'' \<Longrightarrow> wait_time + 2 \<le> max_wait_time \<Longrightarrow>
   get_file env (clock w + 2) (name video_file) = Inr f \<Longrightarrow>
   poll_loop env video_file wait_time w =
     poll_loop env f (wait_time + 2) (requery video_file (report (wait_time + 2) video_file w))"
  by (subst poll_loop.simps) simp

lemma poll_loop_induct [case_names Left TimedOut Raised Next]:
  fixes env :: env and Q :: "remote_file \<Rightarrow> nat \<Rightarrow> world \<Rightarrow> bool"
  assumes "\<And>video_file wait_time w. state_name video_file \<noteq> ''PROCESSING'' \<Longrightarrow> Q video_file wait_time w"
    and "\<And>video_file wait_time w.
           state_name video_file = ''PROCESSING'' \<Longrightarrow> wait_time + 2 > max_wait_time \<Longrightarrow>
           Q video_file wait_time w"
    and "\<And>video_file wait_time w e.
           state_name video_file = ''PROCESSING'' \<Longrightarrow> wait_time + 2 \<le> max_wait_time \<Longrightarrow>
           get_file env (clock w + 2) (name video_file) = Inl e \<Longrightarrow> Q video_file wait_time w"
    and "\<And>video_file wait_time w f.
           state_name video_file = ''PROCESSING'' \<Longrightarrow> wait_time + 2 \<le> max_wait_time \<Longrightarrow>
           get_file env (clock w + 2) (name video_file) = Inr f \<Longrightarrow>
           Q f (wait_time + 2) (requery video_file (report (wait_time + 2) video_file w)) \<Longrightarrow>
           Q video_file wait_time w"
  shows "Q video_file wait_time w"
proof -
  have "env' = env \<Longrightarrow> Q video_file wait_time w" for env'
  proof (induction env' video_file wait_time w rule: poll_loop.induct)
    case (1 env' video_file wait_time w)
    note same = \<open>env' = env\<close>
    show ?case
    proof (cases "state_name video_file = ''PROCESSING''")
      case False
      then show ?thesis by (rule assms(1))
    next
      case processing: True
      show ?thesis
      proof (cases "wait_time + 2 > max_wait_time")
        case True
        with processing show ?thesis by (rule assms(2))
      next
        case False
        then have le: "wait_time + 2 \<le> max_wait_time" by simp
        show ?thesis
        proof (cases "get_file env (clock w + 2) (name video_file)")
          case (Inl e)
          with processing le show ?thesis by (rule assms(3))
        next
          case (Inr f)
          from processing le Inr show ?thesis
          proof (rule assms(4))
            show "Q f (wait_time + 2) (requery video_file (report (wait_time + 2) video_file w))"
              using "1.IH" [of f] processing False Inr same by simp
          qed
        qed
      qed
    qed
  qed
  then show ?thesis by simp
qed

lemma poll_loop_files: "files (snd (poll_loop env video_file wait_time w)) = files w"
  by (induction video_file wait_time w rule: poll_loop_induct [where env = env])
     (simp_all add: poll_loop_left poll_loop_timeout poll_loop_raised poll_loop_next)

lemma poll_loop_entered: "entered (emitted w (snd (poll_loop env video_file wait_time w))) = []"
proof (induction video_file wait_time w rule: poll_loop_induct [where env = env])
  case (Next video_file wait_time w f)
  let ?w1 = "requery video_file (report (wait_time + 2) video_file w)"
  have "emitted w (snd (poll_loop env f (wait_time + 2) ?w1)) =
          emitted w ?w1 @ emitted ?w1 (snd (poll_loop env f (wait_time + 2) ?w1))"
    by (rule emitted_trans) (simp_all add: poll_loop_extends)
  with Next show ?case by (simp add: poll_loop_next)
qed (simp_all add: poll_loop_left poll_loop_timeout poll_loop_raised)

lemma observe_shift:
  "get_file env (t + 2) (name video_file) = Inr f \<Longrightarrow>
   observe env video_file t (Suc k) = observe env f (t + 2) k"
proof (induction k)
  case 0
  then show ?case by simp
next
  case (Suc k)
  then have IH: "observe env video_file t (Suc k) = observe env f (t + 2) k" by simp
  have eq: "t + 2 * Suc (Suc k) = t + 2 + 2 * Suc k" by simp
  have "observe env video_file t (Suc (Suc k)) =
          (case observe env video_file t (Suc k) of
             Inl e \<Rightarrow> Inl e
           | Inr g \<Rightarrow> get_file env (t + 2 * Suc (Suc k)) (name g))"
    by (rule observe.simps(2))
  also have "\<dots> =
          (case observe env f (t + 2) k of
             Inl e \<Rightarrow> Inl e
           | Inr g \<Rightarrow> get_file env (t + 2 + 2 * Suc k) (name g))"
    by (subst IH, subst eq, rule refl)
  also have "\<dots> = observe env f (t + 2) (Suc k)"
    by (rule observe.simps(2) [symmetric])
  finally show ?case .
qed

lemma still_processing_simps [simp]:
  "still_processing (Inr f) = (state_name f = ''PROCESSING'')"
  "still_processing (Inl e) = False"
  by (simp_all add: still_processing_def)

lemma poll_loop_times_out:
  "(\<And>k. k \<le> (max_wait_time - wait_time) div 2 \<Longrightarrow> still_processing (observe env video_file (clock w) k)) \<Longrightarrow>
   fst (poll_loop env video_file wait_time w) = TimedOut"
proof (induction video_file wait_time w rule: poll_loop_induct [where env = env])
  case (Left video_file wait_time w)
  from Left.prems [of 0] Left.hyps show ?case by simp
next
  case (TimedOut video_file wait_time w)
  then show ?case by (simp add: poll_loop_timeout)
next
  case (Raised video_file wait_time w e)
  have "1 \<le> (max_wait_time - wait_time) div 2" using Raised.hyps(2) by simp
  from Raised.prems [OF this] Raised.hyps(3) show ?case
    by simp
next
  case (Next video_file wait_time w f)
  have "still_processing (observe env f (clock w + 2) k)"
    if "k \<le> (max_wait_time - (wait_time + 2)) div 2" for k
  proof -
    from that Next.hyps(2) have "Suc k \<le> (max_wait_time - wait_time) div 2" by simp
    from Next.prems [OF this] show ?thesis
      by (simp only: observe_shift [OF Next.hyps(3)])
  qed
  then have "fst (poll_loop env f (wait_time + 2) (requery video_file (report (wait_time + 2) video_file w))) = TimedOut"
    by (intro Next.IH) simp
  then show ?case by (simp only: poll_loop_next [OF Next.hyps])
qed

lemma poll_loop_timed_out_only:
  "fst (poll_loop env video_file wait_time w) = TimedOut \<Longrightarrow>
   k \<le> (max_wait_time - wait_time) div 2 \<Longrightarrow> still_processing (observe env video_file (clock w) k)"
proof (induction video_file wait_time w arbitrary: k rule: poll_loop_induct [where env = env])
  case (Left video_file wait_time w)
  then show ?case by (simp add: poll_loop_left)
next
  case (TimedOut video_file wait_time w)
  then have "k = 0" by simp
  with TimedOut.hyps show ?case by simp
next
  case (Raised video_file wait_time w e)
  then show ?case by (simp add: poll_loop_raised)
next
  case (Next video_file wait_time w f)
  show ?case
  proof (cases k)
    case 0
    with Next.hyps show ?thesis by simp
  next
    case (Suc j)
    with Next.prems(2) Next.hyps(2) have "j \<le> (max_wait_time - (wait_time + 2)) div 2" by simp
    moreover have "fst (poll_loop env f (wait_time + 2) (requery video_file (report (wait_time + 2) video_file w))) = TimedOut"
      using Next.prems(1) by (simp only: poll_loop_next [OF Next.hyps])
    ultimately have "still_processing (observe env f (clock (requery video_file (report (wait_time + 2) video_file w))) j)"
      by (rule Next.IH [rotated])
    then have "still_processing (observe env f (clock w + 2) j)"
      by (simp only: clock_requery clock_report)
    then show ?thesis
      unfolding Suc by (simp only: observe_shift [OF Next.hyps(3)])
  qed
qed

lemma generated_append [simp]: "generated (xs @ ys) = generated xs @ generated ys"
  by (induction xs rule: generated.induct) simp_all

lemma poll_loop_extends' [simp]:
  "extends w w0 \<Longrightarrow> extends w (snd (poll_loop env video_file wait_time w0))"
  by (rule extends_trans [OF _ poll_loop_extends])

lemma emitted_poll_loop:
  "extends w w0 \<Longrightarrow>
   emitted w (snd (poll_loop env video_file wait_time w0)) =
     emitted w w0 @ emitted w0 (snd (poll_loop env video_file wait_time w0))"
  by (rule emitted_trans [OF _ poll_loop_extends])

lemma emitted_poll_loop_next:
  assumes "state_name video_file = ''PROCESSING''" "wait_time + 2 \<le> max_wait_time"
    "get_file env (clock w + 2) (name video_file) = Inr f"
  shows "emitted w (snd (poll_loop env video_file wait_time w)) =
     [Progress (progress (wait_time + 2)), StatusText (wait_time + 2) ''PROCESSING'',
      Call (Sleep 2), Call (GetFile (name video_file))]
     @ emitted (requery video_file (report (wait_time + 2) video_file w))
         (snd (poll_loop env f (wait_time + 2) (requery video_file (report (wait_time + 2) video_file w))))"
  by (simp only: poll_loop_next [OF assms])
     (simp add: emitted_poll_loop [where w = w] assms(1))

lemma poll_loop_generated: "generated (emitted w (snd (poll_loop env video_file wait_time w))) = []"
proof (induction video_file wait_time w rule: poll_loop_induct [where env = env])
  case (Next video_file wait_time w f)
  then show ?case by (simp add: emitted_poll_loop_next)
qed (simp_all add: poll_loop_left poll_loop_timeout poll_loop_raised)

lemma progress_mono: "a \<le> b \<Longrightarrow> progress a \<le> progress b"
  by (simp add: progress_def max_wait_time_def min_def divide_right_mono)

lemma progress_nonneg: "0 \<le> progress t"
  by (simp add: progress_def max_wait_time_def)

lemma poll_loop_progress:
  "sorted (progress_values (emitted w (snd (poll_loop env video_file wait_time w)))) \<and>
   (\<forall>p \<in> set (progress_values (emitted w (snd (poll_loop env video_file wait_time w)))).
      progress (wait_time + 2) \<le> p \<and> p \<le> 9 / 10)"
proof (induction video_file wait_time w rule: poll_loop_induct [where env = env])
  case (Left video_file wait_time w)
  then show ?case by (simp add: poll_loop_left)
next
  case (TimedOut video_file wait_time w)
  then show ?case
    using progress_le [of "wait_time + 2"] by (simp add: poll_loop_timeout)
next
  case (Raised video_file wait_time w e)
  then show ?case
    using progress_le [of "wait_time + 2"] by (simp add: poll_loop_raised)
next
  case (Next video_file wait_time w f)
  let ?ps = "progress_values (emitted (requery video_file (report (wait_time + 2) video_file w))
    (snd (poll_loop env f (wait_time + 2) (requery video_file (report (wait_time + 2) video_file w)))))"
  have step: "progress (wait_time + 2) \<le> progress (wait_time + 2 + 2)"
    by (rule progress_mono) simp
  have eq: "progress_values (emitted w (snd (poll_loop env video_file wait_time w))) =
      progress (wait_time + 2) # ?ps"
    by (simp add: emitted_poll_loop_next [OF Next.hyps])
  from Next.IH have sorted: "sorted ?ps"
    and bounds: "\<And>p. p \<in> set ?ps \<Longrightarrow> progress (wait_time + 2 + 2) \<le> p \<and> p \<le> 9 / 10"
    by blast+
  have "sorted (progress (wait_time + 2) # ?ps)"
    using sorted bounds step by (fastforce simp only: sorted_simps)
  moreover have "progress (wait_time + 2) \<le> p \<and> p \<le> 9 / 10"
    if "p \<in> set (progress (wait_time + 2) # ?ps)" for p
    using that bounds [of p] step progress_le [of "wait_time + 2"] by auto
  ultimately show ?case unfolding eq by blast
qed

lemma poll_loop_waits:
  "fst (poll_loop env video_file wait_time w) = TimedOut \<Longrightarrow>
   status_waits (emitted w (snd (poll_loop env video_file wait_time w))) =
     map (\<lambda>k. wait_time + 2 * Suc k) [0..<Suc ((max_wait_time - wait_time) div 2)]"
proof (induction video_file wait_time w rule: poll_loop_induct [where env = env])
  case (Left video_file wait_time w)
  then show ?case by (simp add: poll_loop_left)
next
  case (TimedOut video_file wait_time w)
  then have "(max_wait_time - wait_time) div 2 = 0" by simp
  then show ?case using TimedOut by (simp add: poll_loop_timeout)
next
  case (Raised video_file wait_time w e)
  then show ?case by (simp add: poll_loop_raised)
next
  case (Next video_file wait_time w f)
  let ?w1 = "requery video_file (report (wait_time + 2) video_file w)"
  let ?m = "(max_wait_time - (wait_time + 2)) div 2"
  have m: "(max_wait_time - wait_time) div 2 = Suc ?m"
    using Next.hyps(2) by simp
  have "fst (poll_loop env f (wait_time + 2) ?w1) = TimedOut"
    using Next.prems by (simp only: poll_loop_next [OF Next.hyps])
  then have IH: "status_waits (emitted ?w1 (snd (poll_loop env f (wait_time + 2) ?w1))) =
     map (\<lambda>k. wait_time + 2 + 2 * Suc k) [0..<Suc ?m]"
    by (rule Next.IH)
  have lhs: "status_waits (emitted w (snd (poll_loop env video_file wait_time w))) =
      (wait_time + 2) # status_waits (emitted ?w1 (snd (poll_loop env f (wait_time + 2) ?w1)))"
    by (simp add: emitted_poll_loop_next [OF Next.hyps])
  have rhs: "map (\<lambda>k. wait_time + 2 * Suc k) [0..<Suc (Suc ?m)] =
      (wait_time + 2) # map (\<lambda>k. wait_time + 2 + 2 * Suc k) [0..<Suc ?m]"
    by (subst map_upt_Suc) simp
  show ?case unfolding lhs IH m rhs ..
qed

lemma poll_loop_calls:
  "fst (poll_loop env video_file wait_time w) = TimedOut \<Longrightarrow>
   length (calls (emitted w (snd (poll_loop env video_file wait_time w)))) = 2 * ((max_wait_time - wait_time) div 2) \<and>
   filter (\<lambda>c. c = Sleep 2) (calls (emitted w (snd (poll_loop env video_file wait_time w)))) =
     replicate ((max_wait_time - wait_time) div 2) (Sleep 2)"
proof (induction video_file wait_time w rule: poll_loop_induct [where env = env])
  case (Left video_file wait_time w)
  then show ?case by (simp add: poll_loop_left)
next
  case (TimedOut video_file wait_time w)
  then have "(max_wait_time - wait_time) div 2 = 0" by simp
  then show ?case using TimedOut by (simp add: poll_loop_timeout)
next
  case (Raised video_file wait_time w e)
  then show ?case by (simp add: poll_loop_raised)
next
  case (Next video_file wait_time w f)
  let ?w1 = "requery video_file (report (wait_time + 2) video_file w)"
  have m: "(max_wait_time - wait_time) div 2 = Suc ((max_wait_time - (wait_time + 2)) div 2)"
    using Next.hyps(2) by simp
  have "fst (poll_loop env f (wait_time + 2) ?w1) = TimedOut"
    using Next.prems by (simp only: poll_loop_next [OF Next.hyps])
  from Next.IH [OF this] show ?case
    by (simp add: emitted_poll_loop_next [OF Next.hyps] m)
qed

section \<open>Facts about the upload method\<close>

lemma extends_start_upload [simp]: "extends w w' \<Longrightarrow> extends w (start_upload p w')"
  by (simp add: start_upload_def)

lemma extends_start_wait [simp]: "extends w w' \<Longrightarrow> extends w (start_wait w')"
  by (simp add: start_wait_def)

lemma emitted_start_upload [simp]:
  "extends w w' \<Longrightarrow>
   emitted w (start_upload p w') =
     emitted w w' @ [Enter (UploadVideoToGemini p), Say StSpinner Uploading, Call (UploadFile p)]"
  by (simp add: start_upload_def)

lemma emitted_start_wait [simp]:
  "extends w w' \<Longrightarrow>
   emitted w (start_wait w') =
     emitted w w' @ [Say StSuccess VideoUploaded, Say StInfo WaitingForProcessing, Progress 0]"
  by (simp add: start_wait_def)

lemma clock_start_upload [simp]: "clock (start_upload p w) = clock w"
  by (simp add: start_upload_def)

lemma clock_start_wait [simp]: "clock (start_wait w) = clock w"
  by (simp add: start_wait_def)

lemma files_start_upload [simp]: "files (start_upload p w) = files w"
  by (simp add: start_upload_def)

lemma files_start_wait [simp]: "files (start_wait w) = files w"
  by (simp add: start_wait_def)

lemma fst_classify:
  "fst (classify f w) = (if state_name f = ''ACTIVE'' then Some f else None)"
  by (simp add: classify_def Let_def)

lemma extends_classify [simp]: "extends w w' \<Longrightarrow> extends w (snd (classify f w'))"
  by (simp add: classify_def Let_def)

lemma emitted_classify:
  "extends w w' \<Longrightarrow>
   emitted w (snd (classify f w')) =
     emitted w w' @ [Progress 1, StatusEmpty,
       if state_name f = ''FAILED'' then Say StError ProcessingFailed
       else if state_name f = ''ACTIVE'' then Say StSuccess VideoReady
       else Say StWarning (UnexpectedState (state_name f))]"
  by (simp add: classify_def Let_def)

lemma clock_classify [simp]: "clock (snd (classify f w)) = clock w"
  by (simp add: classify_def Let_def)

lemma files_classify [simp]: "files (snd (classify f w)) = files w"
  by (simp add: classify_def Let_def)

text \<open>The result and the log of the whole method, by the way the loop ended.\<close>

lemma upload_video_to_gemini_failed:
  "upload_file env video_path = Inl e \<Longrightarrow>
   upload_video_to_gemini env video_path w =
     (None, emit (Say StError (UploadFailed e)) (start_upload video_path w))"
  by (simp add: upload_video_to_gemini_def)

lemma upload_video_to_gemini_polled:
  assumes "upload_file env video_path = Inr video_file"
    and "poll_loop env video_file 0 (start_wait (start_upload video_path w)) = (ex, w1)"
  shows "upload_video_to_gemini env video_path w =
     (case ex of
        Left f \<Rightarrow> classify f w1
      | TimedOut \<Rightarrow> (None, w1)
      | Raised e \<Rightarrow> (None, emit (Say StError (UploadFailed e)) w1))"
  using assms by (simp add: upload_video_to_gemini_def split: poll_exit.splits)

lemma upload_video_to_gemini_emitted:
  assumes "upload_file env video_path = Inr video_file"
    and "poll_loop env video_file 0 (start_wait (start_upload video_path w)) = (ex, w1)"
  shows "emitted w (snd (upload_video_to_gemini env video_path w)) =
     [Enter (UploadVideoToGemini video_path), Say StSpinner Uploading, Call (UploadFile video_path),
      Say StSuccess VideoUploaded, Say StInfo WaitingForProcessing, Progress 0]
     @ emitted (start_wait (start_upload video_path w)) w1
     @ (case ex of
          Left f \<Rightarrow>
            [Progress 1, StatusEmpty,
             if state_name f = ''FAILED'' then Say StError ProcessingFailed
             else if state_name f = ''ACTIVE'' then Say StSuccess VideoReady
             else Say StWarning (UnexpectedState (state_name f))]
        | TimedOut \<Rightarrow> []
        | Raised e \<Rightarrow> [Say StError (UploadFailed e)])"
proof -
  let ?w0 = "start_wait (start_upload video_path w)"
  have w1: "w1 = snd (poll_loop env video_file 0 ?w0)" using assms(2) by simp
  have ext: "extends w w1" unfolding w1 by simp
  have em: "emitted w w1 = emitted w ?w0 @ emitted ?w0 w1"
    unfolding w1 by (rule emitted_poll_loop) simp
  show ?thesis
    unfolding upload_video_to_gemini_polled [OF assms]
    using ext em by (cases ex) (simp_all add: emitted_classify)
qed

lemma upload_video_to_gemini_entered:
  "entered (emitted w (snd (upload_video_to_gemini env video_path w))) = [UploadVideoToGemini video_path]"
proof (cases "upload_file env video_path")
  case (Inl e)
  then show ?thesis by (simp add: upload_video_to_gemini_failed)
next
  case (Inr video_file)
  obtain ex w1 where loop: "poll_loop env video_file 0 (start_wait (start_upload video_path w)) = (ex, w1)"
    by (cases "poll_loop env video_file 0 (start_wait (start_upload video_path w))")
  have "entered (emitted (start_wait (start_upload video_path w)) w1) = []"
    using poll_loop_entered [of "start_wait (start_upload video_path w)" env video_file 0] loop by simp
  then show ?thesis
    by (cases ex) (simp_all add: upload_video_to_gemini_emitted [OF Inr loop])
qed

lemma upload_video_to_gemini_generated:
  "generated (emitted w (snd (upload_video_to_gemini env video_path w))) = []"
proof (cases "upload_file env video_path")
  case (Inl e)
  then show ?thesis by (simp add: upload_video_to_gemini_failed)
next
  case (Inr video_file)
  obtain ex w1 where loop: "poll_loop env video_file 0 (start_wait (start_upload video_path w)) = (ex, w1)"
    by (cases "poll_loop env video_file 0 (start_wait (start_upload video_path w))")
  have "generated (emitted (start_wait (start_upload video_path w)) w1) = []"
    using poll_loop_generated [of "start_wait (start_upload video_path w)" env video_file 0] loop by simp
  then show ?thesis
    by (cases ex) (simp_all add: upload_video_to_gemini_emitted [OF Inr loop])
qed

lemma run_pipeline_stopped:
  "fst (upload_video_to_gemini env video_path w) = None \<Longrightarrow>
   run_pipeline env video_path w = snd (upload_video_to_gemini env video_path w)"
  by (cases "upload_video_to_gemini env video_path w") (simp add: run_pipeline_def)


lemma observe_stuck: "observe stuck_env stuck_file t k = Inr stuck_file"
  by (induction k) (simp_all add: stuck_env_def stuck_file_def)

lemma poll_loop_timeout_reported:
  "fst (poll_loop env video_file wait_time w) = TimedOut \<Longrightarrow>
   last (events (snd (poll_loop env video_file wait_time w))) = Say StError ProcessingTimeout"
proof (induction video_file wait_time w rule: poll_loop_induct [where env = env])
  case (Left video_file wait_time w)
  then show ?case by (simp add: poll_loop_left)
next
  case (TimedOut video_file wait_time w)
  then show ?case by (simp add: poll_loop_timeout)
next
  case (Raised video_file wait_time w e)
  then show ?case by (simp add: poll_loop_raised)
next
  case (Next video_file wait_time w f)
  then show ?case by (simp only: poll_loop_next [OF Next.hyps])
qed

lemma upload_video_to_gemini_timed_out:
  assumes "upload_file env video_path = Inr video_file"
    and "fst (poll_loop env video_file 0 (start_wait (start_upload video_path w))) = TimedOut"
  shows "fst (upload_video_to_gemini env video_path w) = None
    \<and> last (events (snd (upload_video_to_gemini env video_path w))) = Say StError ProcessingTimeout"
proof -
  let ?w0 = "start_wait (start_upload video_path w)"
  obtain w1 where loop: "poll_loop env video_file 0 ?w0 = (TimedOut, w1)"
    using assms(2) by (cases "poll_loop env video_file 0 ?w0") simp
  have res: "upload_video_to_gemini env video_path w = (None, w1)"
    by (simp add: upload_video_to_gemini_polled [OF assms(1) loop])
  have "last (events w1) = Say StError ProcessingTimeout"
    using poll_loop_timeout_reported [OF assms(2)] loop by simp
  then show ?thesis by (simp add: res)
qed

section \<open>Facts about the stages of the pipeline\<close>

lemma poll_loop_downloads: "downloads (emitted w (snd (poll_loop env video_file wait_time w))) = []"
proof (induction video_file wait_time w rule: poll_loop_induct [where env = env])
  case (Next video_file wait_time w f)
  then show ?case by (simp add: emitted_poll_loop_next)
qed (simp_all add: poll_loop_left poll_loop_timeout poll_loop_raised)

lemma upload_video_to_gemini_downloads:
  "downloads (emitted w (snd (upload_video_to_gemini env video_path w))) = []"
proof (cases "upload_file env video_path")
  case (Inl e)
  then show ?thesis by (simp add: upload_video_to_gemini_failed)
next
  case (Inr video_file)
  obtain ex w1 where loop: "poll_loop env video_file 0 (start_wait (start_upload video_path w)) = (ex, w1)"
    by (cases "poll_loop env video_file 0 (start_wait (start_upload video_path w))")
  have "downloads (emitted (start_wait (start_upload video_path w)) w1) = []"
    using poll_loop_downloads [of "start_wait (start_upload video_path w)" env video_file 0] loop by simp
  then show ?thesis
    by (cases ex) (simp_all add: upload_video_to_gemini_emitted [OF Inr loop])
qed

lemma upload_video_to_gemini_extends: "extends w (snd (upload_video_to_gemini env video_path w))"
proof (cases "upload_file env video_path")
  case (Inl e)
  then show ?thesis by (simp add: upload_video_to_gemini_failed)
next
  case (Inr video_file)
  obtain ex w1 where loop: "poll_loop env video_file 0 (start_wait (start_upload video_path w)) = (ex, w1)"
    by (cases "poll_loop env video_file 0 (start_wait (start_upload video_path w))")
  have "extends w (snd (poll_loop env video_file 0 (start_wait (start_upload video_path w))))"
    by simp
  then have "extends w w1" using loop by simp
  then show ?thesis
    by (cases ex) (simp_all add: upload_video_to_gemini_polled [OF Inr loop])
qed

lemma upload_video_to_gemini_files: "files (snd (upload_video_to_gemini env video_path w)) = files w"
proof (cases "upload_file env video_path")
  case (Inl e)
  then show ?thesis by (simp add: upload_video_to_gemini_failed)
next
  case (Inr video_file)
  obtain ex w1 where loop: "poll_loop env video_file 0 (start_wait (start_upload video_path w)) = (ex, w1)"
    by (cases "poll_loop env video_file 0 (start_wait (start_upload video_path w))")
  have "files (snd (poll_loop env video_file 0 (start_wait (start_upload video_path w)))) = files w"
    by (simp add: poll_loop_files)
  then have "files w1 = files w" using loop by simp
  then show ?thesis
    by (cases ex) (simp_all add: upload_video_to_gemini_polled [OF Inr loop])
qed

text \<open>The two calls of the service.\<close>

lemma fst_extract_text_from_video:
  "fst (extract_text_from_video env video_file w) =
     (case generate_content env [FilePart video_file, TextPart extraction_prompt] of
        Inl e \<Rightarrow> None
      | Inr (Text t) \<Rightarrow> Some t
      | Inr (TextRaises e) \<Rightarrow> None)"
  by (simp add: extract_text_from_video_def Let_def split: sum.splits response_text.splits)

lemma extends_extract_text_from_video [simp]:
  "extends w w' \<Longrightarrow> extends w (snd (extract_text_from_video env video_file w'))"
  by (simp add: extract_text_from_video_def Let_def split: sum.splits response_text.splits)

lemma emitted_extract_text_from_video:
  "extends w w' \<Longrightarrow>
   emitted w (snd (extract_text_from_video env video_file w')) =
     emitted w w'
     @ [Enter (ExtractTextFromVideo video_file), Say StSpinner Extracting,
        Call (GenerateContent [FilePart video_file, TextPart extraction_prompt])]
     @ (case generate_content env [FilePart video_file, TextPart extraction_prompt] of
          Inl e \<Rightarrow> [Say StError (ExtractionFailed e)]
        | Inr (Text t) \<Rightarrow> [Say StSuccess ExtractionCompleted]
        | Inr (TextRaises e) \<Rightarrow> [Say StSuccess ExtractionCompleted, Say StError (ExtractionFailed e)])"
  by (simp add: extract_text_from_video_def Let_def split: sum.splits response_text.splits)

lemma files_extract_text_from_video [simp]:
  "files (snd (extract_text_from_video env video_file w)) = files w"
  by (simp add: extract_text_from_video_def Let_def split: sum.splits response_text.splits)

lemma fst_summarize_text:
  "fst (summarize_text env extracted_text w) =
     (case generate_content env [TextPart (summary_prompt extracted_text)] of
        Inl e \<Rightarrow> None
      | Inr (Text t) \<Rightarrow> Some t
      | Inr (TextRaises e) \<Rightarrow> None)"
  by (simp add: summarize_text_def Let_def split: sum.splits response_text.splits)

lemma extends_summarize_text [simp]:
  "extends w w' \<Longrightarrow> extends w (snd (summarize_text env extracted_text w'))"
  by (simp add: summarize_text_def Let_def split: sum.splits response_text.splits)

lemma emitted_summarize_text:
  "extends w w' \<Longrightarrow>
   emitted w (snd (summarize_text env extracted_text w')) =
     emitted w w'
     @ [Enter (SummarizeText extracted_text), Say StSpinner Summarizing,
        Call (GenerateContent [TextPart (summary_prompt extracted_text)])]
     @ (case generate_content env [TextPart (summary_prompt extracted_text)] of
          Inl e \<Rightarrow> [Say StError (SummaryFailed e)]
        | Inr (Text t) \<Rightarrow> [Say StSuccess SummaryCreated]
        | Inr (TextRaises e) \<Rightarrow> [Say StSuccess SummaryCreated, Say StError (SummaryFailed e)])"
  by (simp add: summarize_text_def Let_def split: sum.splits response_text.splits)

lemma files_summarize_text [simp]:
  "files (snd (summarize_text env extracted_text w)) = files w"
  by (simp add: summarize_text_def Let_def split: sum.splits response_text.splits)

lemma extends_show_results [simp]:
  "extends w w' \<Longrightarrow> extends w (show_results extracted_text summary w')"
  by (simp add: show_results_def)

lemma emitted_show_results:
  "extends w w' \<Longrightarrow>
   emitted w (show_results extracted_text summary w') =
     emitted w w'
     @ [Markdown ResultBox (replace_newlines extracted_text),
        DownloadButton extracted_text ''extracted_text.txt'' ''text/plain'',
        Markdown SummaryBox (replace_newlines summary),
        DownloadButton summary ''video_summary.txt'' ''text/plain'',
        DownloadButton (combined_text extracted_text summary) ''video_analysis_report.txt'' ''text/plain'']"
  by (simp add: show_results_def)

lemma files_show_results [simp]: "files (show_results extracted_text summary w) = files w"
  by (simp add: show_results_def)

text \<open>The log of the pipeline, stage by stage.\<close>

lemma run_pipeline_emitted:
  assumes "upload_video_to_gemini env video_path w = (handle, w1)"
  shows "emitted w (run_pipeline env video_path w) =
     emitted w w1 @
     (case handle of
        None \<Rightarrow> []
      | Some video_file \<Rightarrow>
          emitted w1 (snd (extract_text_from_video env video_file w1)) @
          (case fst (extract_text_from_video env video_file w1) of
             None \<Rightarrow> []
           | Some extracted_text \<Rightarrow>
               if extracted_text = [] then []
               else
                 emitted (snd (extract_text_from_video env video_file w1))
                   (snd (summarize_text env extracted_text (snd (extract_text_from_video env video_file w1)))) @
                 (case fst (summarize_text env extracted_text (snd (extract_text_from_video env video_file w1))) of
                    None \<Rightarrow> []
                  | Some summary \<Rightarrow>
                      if summary = [] then []
                      else emitted
                             (snd (summarize_text env extracted_text (snd (extract_text_from_video env video_file w1))))
                             (show_results extracted_text summary
                               (snd (summarize_text env extracted_text (snd (extract_text_from_video env video_file w1))))))))"
proof -
  have ext1: "extends w w1"
    using upload_video_to_gemini_extends [of w env video_path] assms by simp
  show ?thesis
  proof (cases handle)
    case None
    with assms show ?thesis by (simp add: run_pipeline_def)
  next
    case (Some video_file)
    obtain r2 w2 where ex: "extract_text_from_video env video_file w1 = (r2, w2)"
      by (cases "extract_text_from_video env video_file w1")
    have ext2: "extends w1 w2"
      using extends_extract_text_from_video [of w1 w1 env video_file] ex by simp
    have e12: "emitted w w2 = emitted w w1 @ emitted w1 w2"
      by (rule emitted_trans [OF ext1 ext2])
    show ?thesis
    proof (cases r2)
      case None
      with assms Some ex e12 show ?thesis by (simp add: run_pipeline_def)
    next
      case (Some extracted_text)
      note r2 = this
      show ?thesis
      proof (cases "extracted_text = []")
        case True
        with assms \<open>handle = Some video_file\<close> ex e12 r2 show ?thesis by (simp add: run_pipeline_def)
      next
        case False
        obtain r3 w3 where su: "summarize_text env extracted_text w2 = (r3, w3)"
          by (cases "summarize_text env extracted_text w2")
        have ext3: "extends w2 w3"
          using extends_summarize_text [of w2 w2 env extracted_text] su by simp
        have e13: "emitted w w3 = emitted w w1 @ emitted w1 w2 @ emitted w2 w3"
          using emitted_trans [OF extends_trans [OF ext1 ext2] ext3] e12 by simp
        have e14: "emitted w (show_results extracted_text summary w3) =
            emitted w w1 @ emitted w1 w2 @ emitted w2 w3 @ emitted w3 (show_results extracted_text summary w3)"
          for summary
          using emitted_trans [OF extends_trans [OF extends_trans [OF ext1 ext2] ext3],
              of "show_results extracted_text summary w3"] e13
          by simp
        show ?thesis
          using assms \<open>handle = Some video_file\<close> ex r2 False su e13 e14
          by (cases r3) (simp_all add: run_pipeline_def)
      qed
    qed
  qed
qed

lemma extract_text_from_video_log:
  "entered (emitted w (snd (extract_text_from_video env video_file w))) = [ExtractTextFromVideo video_file]"
  "generated (emitted w (snd (extract_text_from_video env video_file w))) =
     [[FilePart video_file, TextPart extraction_prompt]]"
  "downloads (emitted w (snd (extract_text_from_video env video_file w))) = []"
  by (simp_all add: emitted_extract_text_from_video split: sum.splits response_text.splits)

lemma summarize_text_log:
  "entered (emitted w (snd (summarize_text env extracted_text w))) = [SummarizeText extracted_text]"
  "generated (emitted w (snd (summarize_text env extracted_text w))) =
     [[TextPart (summary_prompt extracted_text)]]"
  "downloads (emitted w (snd (summarize_text env extracted_text w))) = []"
  by (simp_all add: emitted_summarize_text split: sum.splits response_text.splits)

lemma show_results_log:
  "entered (emitted w (show_results extracted_text summary w)) = []"
  "generated (emitted w (show_results extracted_text summary w)) = []"
  "downloads (emitted w (show_results extracted_text summary w)) =
     [(''extracted_text.txt'', extracted_text), (''video_summary.txt'', summary),
      (''video_analysis_report.txt'', combined_text extracted_text summary)]"
  by (simp_all add: emitted_show_results)

lemma upload_video_to_gemini_active:
  assumes "upload_file env video_path = Inr video_file" and "state_name video_file = ''ACTIVE''"
  shows "fst (upload_video_to_gemini env video_path w) = Some video_file"
proof -
  have "poll_loop env video_file 0 (start_wait (start_upload video_path w)) =
      (Left video_file, start_wait (start_upload video_path w))"
    using assms(2) by (simp add: poll_loop_left)
  from upload_video_to_gemini_polled [OF assms(1) this] assms(2) show ?thesis
    by (simp add: fst_classify)
qed

section \<open>Facts about the resolver\<close>


lemma NamedTemporaryFile_Inl:
  "NamedTemporaryFile env suffix w = (Inl e, w') \<Longrightarrow> w' = w"
  by (auto simp: NamedTemporaryFile_def split: option.splits)

lemma events_write_file [simp]: "events (write_file p b w) = events w"
  by (simp add: write_file_def)


lemma extends_events: "events w'' = events w' \<Longrightarrow> extends w w'' = extends w w'"
  by (simp add: extends_def)

lemma emitted_events: "events w'' = events w' \<Longrightarrow> emitted w w'' = emitted w w'"
  by (simp add: emitted_def)

lemma extends_write_file [simp]: "extends w (write_file p b w') = extends w w'"
  by (rule extends_events) simp

lemma emitted_write_file [simp]: "emitted w (write_file p b w') = emitted w w'"
  by (rule emitted_events) simp









section \<open>Facts about the cleanup\<close>

lemma unlinks_append [simp]: "unlinks (xs @ ys) = unlinks xs @ unlinks ys"
  by (induction xs rule: unlinks.induct) simp_all

lemma events_report [simp]:
  "events (report t f w) = events w @ [Progress (progress t), StatusText t (state_name f)]"
  by (simp add: report_def)

lemma events_requery [simp]:
  "events (requery f w) = events w @ [Call (Sleep 2), Call (GetFile (name f))]"
  by (simp add: requery_def)
















text \<open>
  Outside the amended claim: a path the cleanup does not reach. When the connection
  breaks after the temporary file was created, \<^verbatim>\<open>download_video\<close> returns nothing,
  \<^verbatim>\<open>main\<close> holds no path, no removal is attempted, and the partly written file stays.
\<close>

lemma partial_download_is_left_behind:
  "fst (main broken_env url_input world0) = None
   \<and> unlinks (events (snd (main broken_env url_input world0))) = []
   \<and> files (snd (main broken_env url_input world0)) ''/tmp/tmpa1b2c3.mp4'' = Some [7, 8]"
  by (simp add: main_def url_tab_def upload_tab_def url_input_def download_video_def
        download_failed_def broken_env_def stuck_env_def world0_def NamedTemporaryFile_def
        emit_def write_file_def)

section \<open>The claims\<close>

subsection \<open>The exit contract of the poller\<close>



subsection \<open>The timeout\<close>

text \<open>
  C2. A run in which the upload succeeds and the service answers \<^verbatim>\<open>PROCESSING\<close> at each
  of the 151 observations made before the accumulated wait passes the ceiling of 300
  (observation 0 to observation 150, whatever the service would answer afterwards) ends
  in the timeout: the last thing reported is the timeout error, the result is absent,
  and the pipeline enters no method but the upload and never calls
  \<^verbatim>\<open>generate_content\<close>. The lemma \<open>poll_loop_times_out\<close> is the same fact for a loop that
  has already waited any amount of time.
\<close>

theorem stuck_processing_times_out:
  assumes "upload_file env video_path = Inr video_file"
    and "\<forall>k \<le> 150. still_processing (observe env video_file (clock w) k)"
  shows "fst (poll_loop env video_file 0 (start_wait (start_upload video_path w))) = TimedOut
    \<and> fst (upload_video_to_gemini env video_path w) = None
    \<and> last (events (snd (upload_video_to_gemini env video_path w))) = Say StError ProcessingTimeout
    \<and> entered (emitted w (run_pipeline env video_path w)) = [UploadVideoToGemini video_path]
    \<and> generated (emitted w (run_pipeline env video_path w)) = []"
proof -
  let ?w0 = "start_wait (start_upload video_path w)"
  have "still_processing (observe env video_file (clock ?w0) k)"
    if "k \<le> (max_wait_time - 0) div 2" for k
    using assms(2) that by (simp add: max_wait_time_def)
  then have timed_out: "fst (poll_loop env video_file 0 ?w0) = TimedOut"
    by (rule poll_loop_times_out)
  note none = upload_video_to_gemini_timed_out [OF assms(1) timed_out]
  from none have "run_pipeline env video_path w = snd (upload_video_to_gemini env video_path w)"
    by (simp add: run_pipeline_stopped)
  with timed_out none show ?thesis
    by (simp add: upload_video_to_gemini_entered upload_video_to_gemini_generated)
qed

theorem stuck_processing_times_out_witness:
  "upload_file stuck_env ''/tmp/tmpa1b2c3.mp4'' = Inr stuck_file
   \<and> still_processing (observe stuck_env stuck_file (clock world0) 150)
   \<and> fst (upload_video_to_gemini stuck_env ''/tmp/tmpa1b2c3.mp4'' world0) = None
   \<and> last (events (snd (upload_video_to_gemini stuck_env ''/tmp/tmpa1b2c3.mp4'' world0)))
       = Say StError ProcessingTimeout
   \<and> entered (emitted world0 (run_pipeline stuck_env ''/tmp/tmpa1b2c3.mp4'' world0))
       = [UploadVideoToGemini ''/tmp/tmpa1b2c3.mp4'']
   \<and> generated (emitted world0 (run_pipeline stuck_env ''/tmp/tmpa1b2c3.mp4'' world0)) = []"
proof -
  have up: "upload_file stuck_env ''/tmp/tmpa1b2c3.mp4'' = Inr stuck_file"
    by (simp add: stuck_env_def)
  have "state_name stuck_file = ''PROCESSING''"
    by (simp add: stuck_file_def)
  then have obs: "\<forall>k \<le> 150. still_processing (observe stuck_env stuck_file (clock world0) k)"
    by (simp add: observe_stuck)
  from stuck_processing_times_out [OF up obs] up obs show ?thesis by simp
qed

subsection \<open>The progress bar\<close>

text \<open>
  C3, as stated, fails: the bar is set to 1.0 on line 120, before the state is looked
  at, so a file that is \<^verbatim>\<open>FAILED\<close> (or in an unexpected state) gets the full bar too.
  Here the upload returns a \<^verbatim>\<open>FAILED\<close> file: nothing is returned, no state was ever
  \<^verbatim>\<open>ACTIVE\<close>, and the values shown are 0 and 1.
\<close>

theorem full_bar_on_failed:
  "upload_file failed_env ''/tmp/tmpa1b2c3.mp4'' = Inr \<lparr>name = ''files/abc'', state_name = ''FAILED''\<rparr>
   \<and> fst (upload_video_to_gemini failed_env ''/tmp/tmpa1b2c3.mp4'' world0) = None
   \<and> progress_values (emitted world0 (snd (upload_video_to_gemini failed_env ''/tmp/tmpa1b2c3.mp4'' world0)))
       = [0, 1]"
proof -
  let ?f = "\<lparr>name = ''files/abc'', state_name = ''FAILED''\<rparr>"
  let ?p = "''/tmp/tmpa1b2c3.mp4''"
  have up: "upload_file failed_env ?p = Inr ?f"
    by (simp add: failed_env_def stuck_env_def)
  have loop: "poll_loop failed_env ?f 0 (start_wait (start_upload ?p world0)) =
      (Left ?f, start_wait (start_upload ?p world0))"
    by (simp add: poll_loop_left)
  have "fst (upload_video_to_gemini failed_env ?p world0) = None"
    by (simp add: upload_video_to_gemini_polled [OF up loop] fst_classify)
  moreover have "progress_values (emitted world0 (snd (upload_video_to_gemini failed_env ?p world0))) = [0, 1]"
    by (simp add: upload_video_to_gemini_emitted [OF up loop])
  ultimately show ?thesis using up by simp
qed

text \<open>
  C3, amended. Let \<open>ps\<close> be the fractions the method shows, in order, in a run whose
  upload succeeded. Then \<open>ps\<close> is non-decreasing; it consists of values between 0 and 0.9,
  shown while the state is \<^verbatim>\<open>PROCESSING\<close>, followed by one final 1.0 exactly when the
  loop was left because the state is no longer \<^verbatim>\<open>PROCESSING\<close> (be it \<^verbatim>\<open>ACTIVE\<close>,
  \<^verbatim>\<open>FAILED\<close> or anything else); after a timeout or a failing re-query no 1.0 is shown.
\<close>

theorem progress_monotone_and_capped:
  assumes "upload_file env video_path = Inr video_file"
    and "poll_loop env video_file 0 (start_wait (start_upload video_path w)) = (ex, w1)"
  shows "sorted (progress_values (emitted w (snd (upload_video_to_gemini env video_path w))))
    \<and> (\<exists>qs. progress_values (emitted w (snd (upload_video_to_gemini env video_path w))) =
              qs @ (case ex of Left f \<Rightarrow> [1] | TimedOut \<Rightarrow> [] | Raised e \<Rightarrow> [])
            \<and> (\<forall>q \<in> set qs. 0 \<le> q \<and> q \<le> 9 / 10))
    \<and> (1 \<in> set (progress_values (emitted w (snd (upload_video_to_gemini env video_path w)))))
        = (\<exists>f. ex = Left f)
    \<and> (\<forall>f. ex = Left f \<longrightarrow> state_name f \<noteq> ''PROCESSING'')"
proof -
  let ?w0 = "start_wait (start_upload video_path w)"
  let ?qs = "progress_values (emitted ?w0 w1)"
  let ?fin = "case ex of Left f \<Rightarrow> [1::rat] | TimedOut \<Rightarrow> [] | Raised e \<Rightarrow> []"
  have w1: "w1 = snd (poll_loop env video_file 0 ?w0)" using assms(2) by simp
  have ps: "progress_values (emitted w (snd (upload_video_to_gemini env video_path w))) = (0 # ?qs) @ ?fin"
    by (cases ex) (simp_all add: upload_video_to_gemini_emitted [OF assms])
  have sorted_qs: "sorted ?qs"
    and bounds: "\<And>q. q \<in> set ?qs \<Longrightarrow> progress (0 + 2) \<le> q \<and> q \<le> 9 / 10"
    using poll_loop_progress [of ?w0 env video_file 0] unfolding w1 by blast+
  have range: "0 \<le> q \<and> q \<le> 9 / 10" if "q \<in> set (0 # ?qs)" for q
    using that bounds [of q] progress_nonneg [of "0 + 2"] by auto
  have "sorted (0 # ?qs)"
    using sorted_qs range by (simp only: sorted_simps) auto
  then have "sorted ((0 # ?qs) @ ?fin)"
    using range by (cases ex) (fastforce simp: sorted_append)+
  moreover have "(1 \<in> set ((0 # ?qs) @ ?fin)) = (\<exists>f. ex = Left f)"
    using range [of 1] by (cases ex) auto
  moreover have "state_name f \<noteq> ''PROCESSING''" if "ex = Left f" for f
    using poll_loop_exit_state [of env video_file 0 ?w0 f] assms(2) that by simp
  ultimately show ?thesis
    unfolding ps using range by blast
qed

theorem progress_monotone_and_capped_witness:
  "upload_file slow_env ''/tmp/tmpa1b2c3.mp4'' = Inr stuck_file
   \<and> fst (poll_loop slow_env stuck_file 0 (start_wait (start_upload ''/tmp/tmpa1b2c3.mp4'' world0)))
       = Left \<lparr>name = ''files/abc'', state_name = ''ACTIVE''\<rparr>
   \<and> progress_values (emitted world0 (snd (upload_video_to_gemini slow_env ''/tmp/tmpa1b2c3.mp4'' world0)))
       = [0, 1 / 150, 1 / 75, 1]
   \<and> sorted (progress_values (emitted world0 (snd (upload_video_to_gemini slow_env ''/tmp/tmpa1b2c3.mp4'' world0))))"
proof -
  let ?p = "''/tmp/tmpa1b2c3.mp4''"
  let ?w0 = "start_wait (start_upload ?p world0)"
  have up: "upload_file slow_env ?p = Inr stuck_file"
    by (simp add: slow_env_def stuck_env_def)
  obtain ex w1 where loop: "poll_loop slow_env stuck_file 0 ?w0 = (ex, w1)"
    by (cases "poll_loop slow_env stuck_file 0 ?w0")
  have ex: "ex = Left \<lparr>name = ''files/abc'', state_name = ''ACTIVE''\<rparr>"
    using loop
    by (simp add: poll_loop.simps slow_env_def stuck_env_def stuck_file_def max_wait_time_def world0_def)
  have "progress_values (emitted world0 (snd (upload_video_to_gemini slow_env ?p world0))) = [0, 1 / 150, 1 / 75, 1]"
    by (simp add: upload_video_to_gemini_def poll_loop.simps slow_env_def stuck_env_def stuck_file_def
          max_wait_time_def world0_def emitted_def start_wait_def start_upload_def emit_def sleep_def
          report_def requery_def classify_def progress_def)
  with progress_monotone_and_capped [OF up loop] up loop ex show ?thesis by simp
qed

subsection \<open>Summarising only after extraction\<close>

text \<open>
  C4. The methods a run of the pipeline enters are, in order: the upload; then the
  extraction, if the upload returned a file; then the summary, if the extraction returned
  a text that is not empty, and then with that very text. So \<^verbatim>\<open>summarize_text\<close> is
  entered at most once, never after a failed or empty extraction, and exactly once with
  the extracted text after an extraction that gave a non-empty text. The same holds of
  the prompts sent to \<^verbatim>\<open>generate_content\<close>.
\<close>

theorem summarize_only_after_extraction:
  "entered (emitted w (run_pipeline env video_path w)) =
     UploadVideoToGemini video_path #
     (case fst (upload_video_to_gemini env video_path w) of
        None \<Rightarrow> []
      | Some video_file \<Rightarrow>
          ExtractTextFromVideo video_file #
          (case fst (extract_text_from_video env video_file (snd (upload_video_to_gemini env video_path w))) of
             None \<Rightarrow> []
           | Some t \<Rightarrow> if t = [] then [] else [SummarizeText t]))
   \<and> generated (emitted w (run_pipeline env video_path w)) =
     (case fst (upload_video_to_gemini env video_path w) of
        None \<Rightarrow> []
      | Some video_file \<Rightarrow>
          [FilePart video_file, TextPart extraction_prompt] #
          (case fst (extract_text_from_video env video_file (snd (upload_video_to_gemini env video_path w))) of
             None \<Rightarrow> []
           | Some t \<Rightarrow> if t = [] then [] else [[TextPart (summary_prompt t)]]))"
proof -
  obtain handle w1 where up: "upload_video_to_gemini env video_path w = (handle, w1)"
    by (cases "upload_video_to_gemini env video_path w")
  have e1: "entered (emitted w w1) = [UploadVideoToGemini video_path]"
    and g1: "generated (emitted w w1) = []"
    using upload_video_to_gemini_entered [of w env video_path]
      upload_video_to_gemini_generated [of w env video_path] up by simp_all
  show ?thesis
    unfolding run_pipeline_emitted [OF up]
    by (simp add: up e1 g1 extract_text_from_video_log summarize_text_log show_results_log
          split: option.splits)
qed

theorem summarize_only_after_extraction_witness:
  "entered (emitted world0 (run_pipeline happy_env ''/tmp/tmpa1b2c3.mp4'' world0)) =
     [UploadVideoToGemini ''/tmp/tmpa1b2c3.mp4'',
      ExtractTextFromVideo \<lparr>name = ''files/abc'', state_name = ''ACTIVE''\<rparr>,
      SummarizeText ''Speaker 1: Hello.'']
   \<and> entered (emitted world0 (run_pipeline empty_env ''/tmp/tmpa1b2c3.mp4'' world0)) =
     [UploadVideoToGemini ''/tmp/tmpa1b2c3.mp4'',
      ExtractTextFromVideo \<lparr>name = ''files/abc'', state_name = ''ACTIVE''\<rparr>]"
proof -
  let ?f = "\<lparr>name = ''files/abc'', state_name = ''ACTIVE''\<rparr>"
  let ?p = "''/tmp/tmpa1b2c3.mp4''"
  have h: "fst (upload_video_to_gemini happy_env ?p world0) = Some ?f"
    by (rule upload_video_to_gemini_active) (simp_all add: happy_env_def active_env_def stuck_env_def)
  have e: "fst (upload_video_to_gemini empty_env ?p world0) = Some ?f"
    by (rule upload_video_to_gemini_active) (simp_all add: empty_env_def active_env_def stuck_env_def)
  have th: "fst (extract_text_from_video happy_env ?f w) = Some ''Speaker 1: Hello.''" for w
    by (simp add: fst_extract_text_from_video happy_env_def)
  have te: "fst (extract_text_from_video empty_env ?f w) = Some []" for w
    by (simp add: fst_extract_text_from_video empty_env_def)
  from summarize_only_after_extraction [of world0 happy_env ?p]
    summarize_only_after_extraction [of world0 empty_env ?p]
  show ?thesis by (simp add: h e th te)
qed

subsection \<open>The transient file at pipeline end\<close>




subsection \<open>The outcomes of the extraction\<close>

text \<open>
  C6, as stated, fails: the method hands on whatever \<^verbatim>\<open>response.text\<close> yields and does
  not look at it. When the service answers with the empty text, the method shows the
  success message, shows no error, and returns the empty string.
\<close>

theorem empty_text_returned_as_success:
  "generate_content empty_env [FilePart \<lparr>name = ''files/abc'', state_name = ''ACTIVE''\<rparr>,
      TextPart extraction_prompt] = Inr (Text [])
   \<and> fst (extract_text_from_video empty_env \<lparr>name = ''files/abc'', state_name = ''ACTIVE''\<rparr> world0) = Some []
   \<and> emitted world0 (snd (extract_text_from_video empty_env \<lparr>name = ''files/abc'', state_name = ''ACTIVE''\<rparr> world0)) =
       [Enter (ExtractTextFromVideo \<lparr>name = ''files/abc'', state_name = ''ACTIVE''\<rparr>),
        Say StSpinner Extracting,
        Call (GenerateContent [FilePart \<lparr>name = ''files/abc'', state_name = ''ACTIVE''\<rparr>,
                TextPart extraction_prompt]),
        Say StSuccess ExtractionCompleted]"
  by (simp add: fst_extract_text_from_video emitted_extract_text_from_video empty_env_def)

text \<open>
  C6, amended. The extraction reports an error and returns nothing exactly when the
  call of the service raises or the text accessor of the response raises (a response
  without usable text). When the accessor yields a text, that text is returned as it is,
  empty or not, and no error is reported.
\<close>

theorem extraction_outcomes:
  "fst (extract_text_from_video env video_file w) =
     (case generate_content env [FilePart video_file, TextPart extraction_prompt] of
        Inl e \<Rightarrow> None
      | Inr (Text t) \<Rightarrow> Some t
      | Inr (TextRaises e) \<Rightarrow> None)
   \<and> (\<exists>e. Say StError (ExtractionFailed e) \<in> set (emitted w (snd (extract_text_from_video env video_file w))))
       = (fst (extract_text_from_video env video_file w) = None)
   \<and> (\<exists>e. generate_content env [FilePart video_file, TextPart extraction_prompt] = Inl e
          \<or> generate_content env [FilePart video_file, TextPart extraction_prompt] = Inr (TextRaises e))
       = (fst (extract_text_from_video env video_file w) = None)"
  by (auto simp: fst_extract_text_from_video emitted_extract_text_from_video
        split: sum.splits response_text.splits)

theorem extraction_outcomes_witness:
  "fst (extract_text_from_video stuck_env stuck_file world0) = None
   \<and> Say StError (ExtractionFailed ''ServiceUnavailable'')
       \<in> set (emitted world0 (snd (extract_text_from_video stuck_env stuck_file world0)))
   \<and> fst (extract_text_from_video happy_env stuck_file world0) = Some ''Speaker 1: Hello.''"
  using extraction_outcomes [of stuck_env stuck_file world0]
    extraction_outcomes [of happy_env stuck_file world0]
  by (simp add: emitted_extract_text_from_video stuck_env_def happy_env_def active_env_def)

subsection \<open>The name of the transient file\<close>




subsection \<open>The three downloads\<close>

text \<open>
  C8. In a run in which the upload returned a file, the extraction a non-empty text
  \<open>E\<close> and the summary a non-empty text \<open>S\<close>, exactly three downloads are offered, in this
  order: \<open>E\<close> as \<^verbatim>\<open>extracted_text.txt\<close>, \<open>S\<close> as \<^verbatim>\<open>video_summary.txt\<close>, and as
  \<^verbatim>\<open>video_analysis_report.txt\<close> the header \<^verbatim>\<open>EXTRACTED TEXT:\<close>, a rule of 50 dashes, \<open>E\<close>,
  two empty lines, the header \<^verbatim>\<open>SUMMARY:\<close>, a rule of 50 dashes, and \<open>S\<close>.
\<close>

theorem three_downloads:
  assumes "upload_video_to_gemini env video_path w = (Some video_file, w1)"
    and "extract_text_from_video env video_file w1 = (Some E, w2)" and "E \<noteq> []"
    and "summarize_text env E w2 = (Some S, w3)" and "S \<noteq> []"
  shows "downloads (emitted w (run_pipeline env video_path w)) =
     [(''extracted_text.txt'', E),
      (''video_summary.txt'', S),
      (''video_analysis_report.txt'',
         ''EXTRACTED TEXT:'' @ [CHR 0x0A] @ replicate 50 (CHR ''-'') @ [CHR 0x0A] @ E
         @ [CHR 0x0A, CHR 0x0A, CHR 0x0A]
         @ ''SUMMARY:'' @ [CHR 0x0A] @ replicate 50 (CHR ''-'') @ [CHR 0x0A] @ S)]"
proof -
  have d1: "downloads (emitted w w1) = []"
    using upload_video_to_gemini_downloads [of w env video_path] assms(1) by simp
  have c: "combined_text E S =
         ''EXTRACTED TEXT:'' @ [CHR 0x0A] @ replicate 50 (CHR ''-'') @ [CHR 0x0A] @ E
         @ [CHR 0x0A, CHR 0x0A, CHR 0x0A]
         @ ''SUMMARY:'' @ [CHR 0x0A] @ replicate 50 (CHR ''-'') @ [CHR 0x0A] @ S"
    by (simp add: combined_text_def nl_def)
  have d2: "downloads (emitted w1 w2) = []"
    using extract_text_from_video_log(3) [of w1 env video_file] assms(2) by simp
  have d3: "downloads (emitted w2 w3) = []"
    using summarize_text_log(3) [of w2 env E] assms(4) by simp
  show ?thesis
    unfolding run_pipeline_emitted [OF assms(1)]
    using assms(2-5) d1 d2 d3
    by (simp add: show_results_log c)
qed

theorem three_downloads_witness:
  "fst (upload_video_to_gemini happy_env ''/tmp/tmpa1b2c3.mp4'' world0)
     = Some \<lparr>name = ''files/abc'', state_name = ''ACTIVE''\<rparr>
   \<and> downloads (emitted world0 (run_pipeline happy_env ''/tmp/tmpa1b2c3.mp4'' world0)) =
     [(''extracted_text.txt'', ''Speaker 1: Hello.''),
      (''video_summary.txt'', ''A greeting.''),
      (''video_analysis_report.txt'',
         ''EXTRACTED TEXT:'' @ [CHR 0x0A] @ replicate 50 (CHR ''-'') @ [CHR 0x0A] @ ''Speaker 1: Hello.''
         @ [CHR 0x0A, CHR 0x0A, CHR 0x0A]
         @ ''SUMMARY:'' @ [CHR 0x0A] @ replicate 50 (CHR ''-'') @ [CHR 0x0A] @ ''A greeting.'')]"
proof -
  let ?f = "\<lparr>name = ''files/abc'', state_name = ''ACTIVE''\<rparr>"
  let ?p = "''/tmp/tmpa1b2c3.mp4''"
  obtain h w1 where up: "upload_video_to_gemini happy_env ?p world0 = (h, w1)"
    by (cases "upload_video_to_gemini happy_env ?p world0")
  have "fst (upload_video_to_gemini happy_env ?p world0) = Some ?f"
    by (rule upload_video_to_gemini_active) (simp_all add: happy_env_def active_env_def stuck_env_def)
  with up have h: "h = Some ?f" by simp
  obtain r2 w2 where ex: "extract_text_from_video happy_env ?f w1 = (r2, w2)"
    by (cases "extract_text_from_video happy_env ?f w1")
  have "fst (extract_text_from_video happy_env ?f w1) = Some ''Speaker 1: Hello.''"
    by (simp add: fst_extract_text_from_video happy_env_def)
  with ex have r2: "r2 = Some ''Speaker 1: Hello.''" by simp
  obtain r3 w3 where su: "summarize_text happy_env ''Speaker 1: Hello.'' w2 = (r3, w3)"
    by (cases "summarize_text happy_env ''Speaker 1: Hello.'' w2")
  have "fst (summarize_text happy_env ''Speaker 1: Hello.'' w2) = Some ''A greeting.''"
    by (simp add: fst_summarize_text happy_env_def)
  with su have r3: "r3 = Some ''A greeting.''" by simp
  from three_downloads [OF up [unfolded h] ex [unfolded r2] _ su [unfolded r3]] up h
  show ?thesis by simp
qed

subsection \<open>A file that is ready at once\<close>

text \<open>
  C9. When the file returned by the upload is already \<^verbatim>\<open>ACTIVE\<close>, the loop body never
  runs: the method returns that file, calls nothing but the upload (no sleep, no
  re-query), shows no status line, moves the bar from its initial 0 straight to 1.0, and
  no time passes.
\<close>

theorem active_at_first_query:
  assumes "upload_file env video_path = Inr video_file"
    and "state_name video_file = ''ACTIVE''"
  shows "fst (upload_video_to_gemini env video_path w) = Some video_file
    \<and> calls (emitted w (snd (upload_video_to_gemini env video_path w))) = [UploadFile video_path]
    \<and> status_waits (emitted w (snd (upload_video_to_gemini env video_path w))) = []
    \<and> progress_values (emitted w (snd (upload_video_to_gemini env video_path w))) = [0, 1]
    \<and> clock (snd (upload_video_to_gemini env video_path w)) = clock w"
proof -
  have loop: "poll_loop env video_file 0 (start_wait (start_upload video_path w)) =
      (Left video_file, start_wait (start_upload video_path w))"
    using assms(2) by (simp add: poll_loop_left)
  have em: "emitted w (snd (upload_video_to_gemini env video_path w)) =
      [Enter (UploadVideoToGemini video_path), Say StSpinner Uploading, Call (UploadFile video_path),
       Say StSuccess VideoUploaded, Say StInfo WaitingForProcessing, Progress 0,
       Progress 1, StatusEmpty, Say StSuccess VideoReady]"
    using assms(2) by (simp add: upload_video_to_gemini_emitted [OF assms(1) loop])
  have res: "upload_video_to_gemini env video_path w =
      classify video_file (start_wait (start_upload video_path w))"
    by (simp add: upload_video_to_gemini_polled [OF assms(1) loop])
  have "fst (upload_video_to_gemini env video_path w) = Some video_file"
    using assms(2) by (simp add: res fst_classify)
  moreover have "clock (snd (upload_video_to_gemini env video_path w)) = clock w"
    by (simp add: res)
  ultimately show ?thesis by (simp add: em)
qed

theorem active_at_first_query_witness:
  "upload_file active_env ''/tmp/tmpa1b2c3.mp4'' = Inr \<lparr>name = ''files/abc'', state_name = ''ACTIVE''\<rparr>
   \<and> fst (upload_video_to_gemini active_env ''/tmp/tmpa1b2c3.mp4'' world0)
       = Some \<lparr>name = ''files/abc'', state_name = ''ACTIVE''\<rparr>
   \<and> calls (emitted world0 (snd (upload_video_to_gemini active_env ''/tmp/tmpa1b2c3.mp4'' world0)))
       = [UploadFile ''/tmp/tmpa1b2c3.mp4'']
   \<and> progress_values (emitted world0 (snd (upload_video_to_gemini active_env ''/tmp/tmpa1b2c3.mp4'' world0)))
       = [0, 1]"
  using active_at_first_query [of active_env "''/tmp/tmpa1b2c3.mp4''"
      "\<lparr>name = ''files/abc'', state_name = ''ACTIVE''\<rparr>" world0]
  by (simp add: active_env_def stuck_env_def)

subsection \<open>The timeout boundary\<close>

text \<open>
  C10. The counter starts at 0 and grows by 2 at each observation of \<^verbatim>\<open>PROCESSING\<close>; the
  test is \<^verbatim>\<open>wait_time > max_wait_time\<close>, strict.
  \<^item> The loop ends in the timeout exactly when observations 0 to 150, 151 of them, are
    all \<^verbatim>\<open>PROCESSING\<close>.
  \<^item> When it does, the status lines shown carry the waits 2, 4, ..., 302: 151 lines, the
    last one the first above 300; the loop has slept 150 times and asked the service 150
    times (300 calls).
  \<^item> With 298 already waited the counter becomes exactly 300 and the loop goes on: it
    sleeps and asks again. With 300 already waited the counter becomes 302 and the
    loop stops.
\<close>

theorem timeout_after_151_observations:
  "(fst (poll_loop env video_file 0 w) = TimedOut) =
     (\<forall>k < 151. still_processing (observe env video_file (clock w) k))
   \<and> (fst (poll_loop env video_file 0 w) = TimedOut \<longrightarrow>
        status_waits (emitted w (snd (poll_loop env video_file 0 w))) = map (\<lambda>k. 2 * k) [1..<152]
        \<and> length (calls (emitted w (snd (poll_loop env video_file 0 w)))) = 300
        \<and> filter (\<lambda>c. c = Sleep 2) (calls (emitted w (snd (poll_loop env video_file 0 w))))
            = replicate 150 (Sleep 2))
   \<and> (state_name video_file = ''PROCESSING'' \<longrightarrow>
        poll_loop env video_file 298 w =
          (case get_file env (clock w + 2) (name video_file) of
             Inl e \<Rightarrow> (Raised e, requery video_file (report 300 video_file w))
           | Inr f \<Rightarrow> poll_loop env f 300 (requery video_file (report 300 video_file w)))
        \<and> poll_loop env video_file 300 w =
            (TimedOut, emit (Say StError ProcessingTimeout) (report 302 video_file w)))"
proof -
  have iff: "(fst (poll_loop env video_file 0 w) = TimedOut) =
     (\<forall>k < 151. still_processing (observe env video_file (clock w) k))"
  proof
    assume t: "fst (poll_loop env video_file 0 w) = TimedOut"
    show "\<forall>k < 151. still_processing (observe env video_file (clock w) k)"
    proof (intro allI impI)
      fix k :: nat assume "k < 151"
      then have "k \<le> (max_wait_time - 0) div 2" by (simp add: max_wait_time_def)
      with t show "still_processing (observe env video_file (clock w) k)"
        by (rule poll_loop_timed_out_only)
    qed
  next
    assume a: "\<forall>k < 151. still_processing (observe env video_file (clock w) k)"
    have "still_processing (observe env video_file (clock w) k)"
      if "k \<le> (max_wait_time - 0) div 2" for k
      using a that by (simp add: max_wait_time_def)
    then show "fst (poll_loop env video_file 0 w) = TimedOut"
      by (rule poll_loop_times_out)
  qed
  have upt: "map (\<lambda>k. 0 + 2 * Suc k) [0..<Suc ((max_wait_time - 0) div 2)] = map (\<lambda>k. 2 * k) [1..<152]"
  proof -
    have "[1..<152] = map Suc [0..<151]"
      by (simp only: map_Suc_upt) simp
    then show ?thesis by (simp add: max_wait_time_def comp_def)
  qed
  have trace: "status_waits (emitted w (snd (poll_loop env video_file 0 w))) = map (\<lambda>k. 2 * k) [1..<152]
        \<and> length (calls (emitted w (snd (poll_loop env video_file 0 w)))) = 300
        \<and> filter (\<lambda>c. c = Sleep 2) (calls (emitted w (snd (poll_loop env video_file 0 w))))
            = replicate 150 (Sleep 2)"
    if t: "fst (poll_loop env video_file 0 w) = TimedOut"
    using poll_loop_waits [OF t] poll_loop_calls [OF t] upt
    by (simp add: max_wait_time_def)
  have boundary: "poll_loop env video_file 298 w =
          (case get_file env (clock w + 2) (name video_file) of
             Inl e \<Rightarrow> (Raised e, requery video_file (report 300 video_file w))
           | Inr f \<Rightarrow> poll_loop env f 300 (requery video_file (report 300 video_file w)))
        \<and> poll_loop env video_file 300 w =
            (TimedOut, emit (Say StError ProcessingTimeout) (report 302 video_file w))"
    if p: "state_name video_file = ''PROCESSING''"
  proof
    show "poll_loop env video_file 298 w =
          (case get_file env (clock w + 2) (name video_file) of
             Inl e \<Rightarrow> (Raised e, requery video_file (report 300 video_file w))
           | Inr f \<Rightarrow> poll_loop env f 300 (requery video_file (report 300 video_file w)))"
      using p by (subst poll_loop.simps) (simp add: max_wait_time_def split: sum.split)
    show "poll_loop env video_file 300 w =
            (TimedOut, emit (Say StError ProcessingTimeout) (report 302 video_file w))"
      using p by (subst poll_loop.simps) (simp add: max_wait_time_def)
  qed
  from iff trace boundary show ?thesis by blast
qed

theorem timeout_after_151_observations_witness:
  "fst (poll_loop stuck_env stuck_file 0 world0) = TimedOut
   \<and> status_waits (emitted world0 (snd (poll_loop stuck_env stuck_file 0 world0))) = map (\<lambda>k. 2 * k) [1..<152]
   \<and> length (calls (emitted world0 (snd (poll_loop stuck_env stuck_file 0 world0)))) = 300
   \<and> state_name stuck_file = ''PROCESSING''
   \<and> poll_loop stuck_env stuck_file 300 world0 =
        (TimedOut, emit (Say StError ProcessingTimeout) (report 302 stuck_file world0))"
proof -
  have p: "state_name stuck_file = ''PROCESSING''"
    by (simp add: stuck_file_def)
  then have obs: "\<forall>k < 151. still_processing (observe stuck_env stuck_file (clock world0) k)"
    by (simp add: observe_stuck)
  from timeout_after_151_observations [of stuck_env stuck_file world0] obs p
  show ?thesis by simp
qed

end
